theory Spec2Isabelle
  imports Complex_Main "HOL-Library.Word"
begin

section \<open>The OSM XML parser of libosmium and its object builders\<close>

text \<open>
  This theory embeds \<^verbatim>\<open>osmium/io/detail/xml_input_format.hpp\<close> (the class
  \<^verbatim>\<open>XMLParser\<close>) and \<^verbatim>\<open>osmium/builder/osm_object_builder.hpp\<close> (the sublist
  and object builders) and proves properties of the parser's state machine.

  Conventions of the embedding.
  \<^item> A C++ exception is a value \<open>Inl e\<close> of the sum type \<open>error + 'a\<close>. A failing
    \<^verbatim>\<open>assert\<close> is the error \<open>assertion_failure\<close>: the model is the build in which
    assertions are checked.
  \<^item> The XML tokenizer (Expat) is outside the repository: the input of the parser is the
    sequence of callbacks Expat makes, a list of \<open>xml_event\<close>.
  \<^item> A builder owns a cursor into the buffer and writes the item in place; the model
    keeps the item under construction in the builder (\<open>Some\<close> of its content, \<open>None\<close>
    for a null \<^verbatim>\<open>unique_ptr\<close>). Releasing a sublist builder hands its sublist to
    the parent builder it was created with, releasing an object builder hands the
    finished item to the buffer. The buffer counts bytes only at that moment, which is
    before the only place that reads the counters (\<^verbatim>\<open>commit\<close> and
    \<^verbatim>\<open>flush_buffer\<close>, at the end of an entity).
  \<^item> Functions of the repository whose source is not part of the two files are passed in
    through the record \<open>env\<close>, or are modelled from the specification where a comment
    says so.
\<close>

subsection \<open>Errors\<close>

datatype error =
    xml_error string
  | format_version_error (what: string) (version: string)
  | io_error string
  | assertion_failure string
  | null_pointer_dereference string
  | conversion_error string

subsection \<open>OSM data\<close>

datatype item_type =
    item_type_undefined
  | item_type_node
  | item_type_way
  | item_type_relation
  | item_type_area
  | item_type_changeset

type_synonym object_id_type = "64 word"
type_synonym user_id_type = "32 word"
type_synonym timestamp = "64 word"
type_synonym attrs = "(string \<times> string) list"

text \<open>
  Modelled from the spec: \<^verbatim>\<open>osmium::Location\<close> (osmium/osm/location.hpp is not among
  the sources). Two 32-bit fixed-point coordinates; a default-constructed Location is the
  sentinel undefined Location, and a Location converts to true when both coordinates
  are defined.
\<close>

record location =
  loc_x :: "32 word"
  loc_y :: "32 word"

definition undefined_coordinate :: "32 word" where
  "undefined_coordinate = 2147483647"

definition Location :: location where
  "Location = \<lparr>loc_x = undefined_coordinate, loc_y = undefined_coordinate\<rparr>"

definition location_bool :: "location \<Rightarrow> bool" where
  "location_bool l \<longleftrightarrow> loc_x l \<noteq> undefined_coordinate \<and> loc_y l \<noteq> undefined_coordinate"

text \<open>
  Modelled from the spec: \<^verbatim>\<open>osmium::Box\<close> (osmium/osm/box.hpp is not among the
  sources). A box is extended by Locations; it is represented by the Locations it has
  been extended with, in order, from which its envelope is determined.
\<close>

type_synonym box = "location list"

definition box_extend :: "location \<Rightarrow> box \<Rightarrow> box" where
  "box_extend l b = b @ [l]"

text \<open>
  Modelled from the spec: \<^verbatim>\<open>osmium::OSMObject\<close> (osmium/osm/object.hpp is not among
  the sources): the scalar fields of the leading record of a node, way or relation. A
  new object is visible (scenario S4: a node with no \<^verbatim>\<open>visible\<close> attribute outside a
  delete section is visible).
\<close>

record osm_object =
  o_type :: item_type
  o_id :: object_id_type
  o_version :: "32 word"
  o_visible :: bool
  o_changeset :: "32 word"
  o_timestamp :: timestamp
  o_uid :: user_id_type
  o_location :: location

definition new_object :: "item_type \<Rightarrow> osm_object" where
  "new_object t = \<lparr>o_type = t, o_id = 0, o_version = 0, o_visible = True, o_changeset = 0,
     o_timestamp = 0, o_uid = 0, o_location = Location\<rparr>"

definition set_visible :: "bool \<Rightarrow> osm_object \<Rightarrow> osm_object" where
  "set_visible v object = object\<lparr>o_visible := v\<rparr>"

definition set_location :: "location \<Rightarrow> osm_object \<Rightarrow> osm_object" where
  "set_location l object = object\<lparr>o_location := l\<rparr>"

text \<open>
  Modelled from the spec: \<^verbatim>\<open>osmium::Changeset\<close> (osmium/osm/changeset.hpp is not among
  the sources). Its scalar attributes are kept as the setter leaves them; the parser itself
  touches only the bounding box.
\<close>

record changeset =
  cs_attributes :: attrs
  cs_bounds :: box

definition new_changeset :: changeset where
  "new_changeset = \<lparr>cs_attributes = [], cs_bounds = []\<rparr>"

record node_ref =
  nr_ref :: object_id_type
  nr_location :: location

definition NodeRef :: node_ref where
  "NodeRef = \<lparr>nr_ref = 0, nr_location = Location\<rparr>"

text \<open>
  A relation member as it lies in the buffer: the \<^verbatim>\<open>RelationMember\<close> record (ref, type,
  the full-member flag, the role size), the role, and the embedded copy of the member object
  when one was given (represented by that object's leading record).
\<close>

record relation_member =
  rm_ref :: object_id_type
  rm_type :: item_type
  rm_full_member :: bool
  rm_role_size :: nat
  rm_role :: string
  rm_item :: "osm_object option"

text \<open>
  Modelled from the spec: a changeset discussion is what
  \<^verbatim>\<open>ChangesetDiscussionBuilder\<close> (not among the sources) has written, in order:
  \<^verbatim>\<open>add_comment\<close> writes a comment header, \<^verbatim>\<open>add_comment_text\<close> appends the
  text payload of the comment.
\<close>

datatype discussion_entry =
    comment_header timestamp user_id_type string
  | comment_text string

datatype subitem =
    TagList "(string \<times> string) list"
  | WayNodeList "node_ref list"
  | RelationMemberList "relation_member list"
  | ChangesetDiscussion "discussion_entry list"

text \<open>
  An item of the buffer: the leading record, the user name and the sublists in the order
  in which they were written.
\<close>

record 'h object_builder =
  b_object :: 'h
  b_user :: string
  b_subitems :: "subitem list"

datatype item =
    object_item "osm_object object_builder"
  | changeset_item "changeset object_builder"
  | list_item subitem

subsection \<open>Functions of the repository that are not in the two source files\<close>

text \<open>
  The conversions of attribute values (osmium/osm/types_from_string.hpp,
  osmium/osm/timestamp.hpp, osmium/osm/item_type.hpp, osmium/osm/location.hpp), the stream
  extraction of a double that \<^verbatim>\<open>atof_helper\<close> relies on, the attribute setter of a
  changeset, the size in bytes of a finished item and the largest value of
  \<^verbatim>\<open>string_size_type\<close> (osmium/osm/types.hpp) are parameters. A conversion may throw.
\<close>

record env =
  string_to_object_id :: "string \<Rightarrow> error + object_id_type"
  string_to_object_version :: "string \<Rightarrow> error + 32 word"
  string_to_changeset_id :: "string \<Rightarrow> error + 32 word"
  string_to_user_id :: "string \<Rightarrow> error + user_id_type"
  string_to_timestamp :: "string \<Rightarrow> error + timestamp"
  string_to_visible :: "string \<Rightarrow> error + bool"
  char_to_item_type :: "char \<Rightarrow> item_type"
  istream_extract_double :: "string \<Rightarrow> real"
  double_to_fix :: "real \<Rightarrow> 32 word"
  changeset_set_attribute :: "string \<Rightarrow> string \<Rightarrow> changeset \<Rightarrow> error + changeset"
  item_size :: "item \<Rightarrow> nat"
  string_size_max :: nat

text \<open>
  \<^verbatim>\<open>atof_helper\<close>: a string stream over the value, imbued with the "C" locale,
  extracts a double; the extraction itself is the C++ library's.
\<close>

definition atof_helper :: "env \<Rightarrow> string \<Rightarrow> real" where
  "atof_helper env str = istream_extract_double env str"

definition set_lon :: "env \<Rightarrow> real \<Rightarrow> location \<Rightarrow> location" where
  "set_lon env lon l = l\<lparr>loc_x := double_to_fix env lon\<rparr>"

definition set_lat :: "env \<Rightarrow> real \<Rightarrow> location \<Rightarrow> location" where
  "set_lat env lat l = l\<lparr>loc_y := double_to_fix env lat\<rparr>"

text \<open>
  Modelled from the spec: \<^verbatim>\<open>OSMObject::set_attribute\<close> (osmium/osm/object.hpp is not
  among the sources). The recognized attribute names \<^verbatim>\<open>id\<close>, \<^verbatim>\<open>version\<close>,
  \<^verbatim>\<open>changeset\<close>, \<^verbatim>\<open>timestamp\<close>, \<^verbatim>\<open>uid\<close> and \<^verbatim>\<open>visible\<close> are dispatched to
  typed setters; any other attribute leaves the object as it is.
\<close>

definition set_attribute :: "env \<Rightarrow> string \<Rightarrow> string \<Rightarrow> osm_object \<Rightarrow> error + osm_object" where
  "set_attribute env attr val object =
     (if attr = ''id'' then
        (case string_to_object_id env val of Inl e \<Rightarrow> Inl e
         | Inr v \<Rightarrow> Inr (object\<lparr>o_id := v\<rparr>))
      else if attr = ''version'' then
        (case string_to_object_version env val of Inl e \<Rightarrow> Inl e
         | Inr v \<Rightarrow> Inr (object\<lparr>o_version := v\<rparr>))
      else if attr = ''changeset'' then
        (case string_to_changeset_id env val of Inl e \<Rightarrow> Inl e
         | Inr v \<Rightarrow> Inr (object\<lparr>o_changeset := v\<rparr>))
      else if attr = ''timestamp'' then
        (case string_to_timestamp env val of Inl e \<Rightarrow> Inl e
         | Inr v \<Rightarrow> Inr (object\<lparr>o_timestamp := v\<rparr>))
      else if attr = ''uid'' then
        (case string_to_user_id env val of Inl e \<Rightarrow> Inl e
         | Inr v \<Rightarrow> Inr (object\<lparr>o_uid := v\<rparr>))
      else if attr = ''visible'' then
        (case string_to_visible env val of Inl e \<Rightarrow> Inl e
         | Inr v \<Rightarrow> Inr (set_visible v object))
      else Inr object)"

text \<open>
  Modelled from the spec: \<^verbatim>\<open>osmium::io::Header\<close> (osmium/io/header.hpp is not among
  the sources): a set of key-value options in which a missing key reads as the empty
  string, the flag for multiple object versions, and the bounding boxes.
\<close>

record header =
  options :: attrs
  has_multiple_object_versions :: bool
  boxes :: "box list"

definition Header :: header where
  "Header = \<lparr>options = [], has_multiple_object_versions = False, boxes = []\<rparr>"

definition header_set :: "string \<Rightarrow> string \<Rightarrow> header \<Rightarrow> header" where
  "header_set k v h = h\<lparr>options := (k, v) # filter (\<lambda>kv. fst kv \<noteq> k) (options h)\<rparr>"

definition header_get :: "header \<Rightarrow> string \<Rightarrow> string" where
  "header_get h k = (case map_of (options h) k of None \<Rightarrow> [] | Some v \<Rightarrow> v)"

definition set_has_multiple_object_versions :: "bool \<Rightarrow> header \<Rightarrow> header" where
  "set_has_multiple_object_versions b h = h\<lparr>has_multiple_object_versions := b\<rparr>"

definition add_box :: "box \<Rightarrow> header \<Rightarrow> header" where
  "add_box b h = h\<lparr>boxes := boxes h @ [b]\<rparr>"

text \<open>
  Modelled from the spec: \<^verbatim>\<open>osmium::memory::Buffer\<close> (osmium/memory/buffer.hpp is not
  among the sources): a byte arena of fixed capacity with the counters \<open>written\<close> and
  \<open>committed\<close>, holding whole items; \<^verbatim>\<open>commit\<close> marks \<open>written\<close> as the new
  \<open>committed\<close>. Exhaustion of the arena is not modelled.
\<close>

record buffer =
  capacity :: nat
  written :: nat
  committed :: nat
  items :: "item list"

definition Buffer :: "nat \<Rightarrow> buffer" where
  "Buffer n = \<lparr>capacity = n, written = 0, committed = 0, items = []\<rparr>"

definition buffer_add_item :: "env \<Rightarrow> item \<Rightarrow> buffer \<Rightarrow> buffer" where
  "buffer_add_item env i b = b\<lparr>written := written b + item_size env i, items := items b @ [i]\<rparr>"

definition commit :: "buffer \<Rightarrow> buffer" where
  "commit b = b\<lparr>committed := written b\<rparr>"

subsection \<open>The builders of osm\_object\_builder.hpp\<close>

text \<open>\<^verbatim>\<open>TagListBuilder::add_tag(const char* key, const char* value)\<close>.\<close>

definition add_tag :: "string \<Rightarrow> string \<Rightarrow> (string \<times> string) list \<Rightarrow> (string \<times> string) list" where
  "add_tag key val tags = tags @ [(key, val)]"

text \<open>\<^verbatim>\<open>NodeRefListBuilder::add_node_ref(const NodeRef&)\<close>.\<close>

definition add_node_ref :: "node_ref \<Rightarrow> node_ref list \<Rightarrow> node_ref list" where
  "add_node_ref nr refs = refs @ [nr]"

text \<open>
  \<^verbatim>\<open>static_cast_with_assert<string_size_type>(value)\<close> (osmium/util/cast.hpp is not among
  the sources): the assertion that the value fits into \<^verbatim>\<open>string_size_type\<close>, then the
  cast.
\<close>

definition static_cast_with_assert :: "env \<Rightarrow> nat \<Rightarrow> error + nat" where
  "static_cast_with_assert env n =
     (if n \<le> string_size_max env then Inr n
      else Inl (assertion_failure ''static_cast_with_assert<string_size_type>''))"

text \<open>
  \<^verbatim>\<open>RelationMemberListBuilder::add_role(member, role)\<close>: the role size is
  \<^verbatim>\<open>static_cast_with_assert<string_size_type>(std::strlen(role) + 1)\<close>, which counts
  the terminating NUL; it is set on the member and the role is appended.
\<close>

definition add_role :: "env \<Rightarrow> string \<Rightarrow> relation_member \<Rightarrow> error + relation_member" where
  "add_role env role member =
     (case static_cast_with_assert env (length role + 1) of
        Inl e \<Rightarrow> Inl e
      | Inr len \<Rightarrow> Inr (member\<lparr>rm_role_size := len, rm_role := role\<rparr>))"

text \<open>
  \<^verbatim>\<open>RelationMemberListBuilder::add_member(type, ref, role, full_member = nullptr)\<close>:
  the member record is constructed with the flag \<^verbatim>\<open>full_member != nullptr\<close>, the
  role is added, and the member object is embedded when there is one.
\<close>

definition add_member ::
  "env \<Rightarrow> item_type \<Rightarrow> object_id_type \<Rightarrow> string \<Rightarrow> osm_object option
     \<Rightarrow> relation_member list \<Rightarrow> error + relation_member list" where
  "add_member env type ref role full_member members =
     (let member = \<lparr>rm_ref = ref, rm_type = type, rm_full_member = (full_member \<noteq> None),
                     rm_role_size = 0, rm_role = [], rm_item = None\<rparr>
      in case add_role env role member of
           Inl e \<Rightarrow> Inl e
         | Inr member \<Rightarrow>
             (let member = (case full_member of None \<Rightarrow> member
                            | Some obj \<Rightarrow> member\<lparr>rm_item := Some obj\<rparr>)
              in Inr (members @ [member])))"

text \<open>
  \<^verbatim>\<open>OSMObjectBuilder<T>(buffer)\<close>: the object is constructed in the buffer with
  an empty user name and no sublist. \<^verbatim>\<open>ChangesetBuilder\<close> is \<^verbatim>\<open>ObjectBuilder<Changeset>\<close>.
\<close>

definition OSMObjectBuilder :: "item_type \<Rightarrow> osm_object object_builder" where
  "OSMObjectBuilder t = \<lparr>b_object = new_object t, b_user = [], b_subitems = []\<rparr>"

definition ChangesetBuilder :: "changeset object_builder" where
  "ChangesetBuilder = \<lparr>b_object = new_changeset, b_user = [], b_subitems = []\<rparr>"

text \<open>Modelled from the spec: \<^verbatim>\<open>Builder::add_user\<close> (osmium/builder/builder.hpp is not
  among the sources) appends the user name of the entity.\<close>

definition add_user :: "string \<Rightarrow> 'h object_builder \<Rightarrow> 'h object_builder" where
  "add_user u b = b\<lparr>b_user := u\<rparr>"

text \<open>Modelled from the spec: \<^verbatim>\<open>ChangesetDiscussionBuilder\<close> (not among the sources).\<close>

definition add_comment ::
  "timestamp \<Rightarrow> user_id_type \<Rightarrow> string \<Rightarrow> discussion_entry list \<Rightarrow> discussion_entry list" where
  "add_comment date uid u d = d @ [comment_header date uid u]"

definition add_comment_text :: "string \<Rightarrow> discussion_entry list \<Rightarrow> discussion_entry list" where
  "add_comment_text t d = d @ [comment_text t]"

subsection \<open>The state of XMLParser\<close>

datatype parser_context =
    context_root
  | context_top
  | context_node
  | context_way
  | context_relation
  | context_changeset
  | context_discussion
  | context_comment
  | context_comment_text
  | context_ignored_node
  | context_ignored_way
  | context_ignored_relation
  | context_ignored_changeset
  | context_in_object

text \<open>
  The parent pointer a sublist builder is constructed with names one of the four object
  builders of the parser, or is null.
\<close>

datatype builder_ref = node_builder | way_builder | relation_builder | changeset_builder

record 'a sublist_builder =
  sb_parent :: "builder_ref option"
  sb_list :: "'a list"

text \<open>
  The members of \<^verbatim>\<open>XMLParser\<close>, after those of its base class \<^verbatim>\<open>Parser\<close>
  (osmium/io/detail/input\_format.hpp, not among the sources) that the parser uses: the
  entity kinds to read, the one-shot header promise and the output queue.
\<close>

record xml_parser =
  read_types :: "item_type set"
  header_promise :: "header option"
  output_queue :: "buffer list"
  m_context :: parser_context
  m_last_context :: parser_context
  m_in_delete_section :: bool
  m_header :: header
  m_buffer :: buffer
  m_node_builder :: "osm_object object_builder option"
  m_way_builder :: "osm_object object_builder option"
  m_relation_builder :: "osm_object object_builder option"
  m_changeset_builder :: "changeset object_builder option"
  m_changeset_discussion_builder :: "discussion_entry sublist_builder option"
  m_tl_builder :: "(string \<times> string) sublist_builder option"
  m_wnl_builder :: "node_ref sublist_builder option"
  m_rml_builder :: "relation_member sublist_builder option"
  m_comment_text :: string

definition buffer_size :: nat where
  "buffer_size = 2 * 1000 * 1000"

definition XMLParser :: "item_type set \<Rightarrow> xml_parser" where
  "XMLParser rt = \<lparr>read_types = rt, header_promise = None, output_queue = [],
     m_context = context_root, m_last_context = context_root, m_in_delete_section = False,
     m_header = Header, m_buffer = Buffer buffer_size,
     m_node_builder = None, m_way_builder = None, m_relation_builder = None,
     m_changeset_builder = None, m_changeset_discussion_builder = None,
     m_tl_builder = None, m_wnl_builder = None, m_rml_builder = None,
     m_comment_text = []\<rparr>"

text \<open>Modelled from the spec: the header promise is fulfilled by the first call only.\<close>

definition set_header_value :: "header \<Rightarrow> xml_parser \<Rightarrow> xml_parser" where
  "set_header_value h s = (if header_promise s = None then s\<lparr>header_promise := Some h\<rparr> else s)"

definition header_is_done :: "xml_parser \<Rightarrow> bool" where
  "header_is_done s \<longleftrightarrow> header_promise s \<noteq> None"

definition send_to_output_queue :: "buffer \<Rightarrow> xml_parser \<Rightarrow> xml_parser" where
  "send_to_output_queue b s = s\<lparr>output_queue := output_queue s @ [b]\<rparr>"

definition mark_header_as_done :: "xml_parser \<Rightarrow> xml_parser" where
  "mark_header_as_done s = set_header_value (m_header s) s"

subsection \<open>Releasing builders\<close>

text \<open>\<^verbatim>\<open>m_node_builder.get()\<close> and its siblings: null when the pointer is null.\<close>

definition builder_get :: "builder_ref \<Rightarrow> xml_parser \<Rightarrow> builder_ref option" where
  "builder_get r s =
     (case r of
        node_builder \<Rightarrow> (if m_node_builder s = None then None else Some r)
      | way_builder \<Rightarrow> (if m_way_builder s = None then None else Some r)
      | relation_builder \<Rightarrow> (if m_relation_builder s = None then None else Some r)
      | changeset_builder \<Rightarrow> (if m_changeset_builder s = None then None else Some r))"

definition add_subitem :: "subitem \<Rightarrow> 'h object_builder \<Rightarrow> 'h object_builder" where
  "add_subitem sub b = b\<lparr>b_subitems := b_subitems b @ [sub]\<rparr>"

text \<open>
  The destructor of a sublist builder pads the sublist, which closes it inside its parent.
  A sublist built without a parent is an item of the buffer of its own. A parent that has
  been released before its sublist is a dangling pointer in the source; the model drops the
  sublist there.
\<close>

definition release_sublist :: "env \<Rightarrow> builder_ref option \<Rightarrow> subitem \<Rightarrow> xml_parser \<Rightarrow> xml_parser" where
  "release_sublist env parent sub s =
     (case parent of
        None \<Rightarrow> s\<lparr>m_buffer := buffer_add_item env (list_item sub) (m_buffer s)\<rparr>
      | Some node_builder \<Rightarrow> s\<lparr>m_node_builder := map_option (add_subitem sub) (m_node_builder s)\<rparr>
      | Some way_builder \<Rightarrow> s\<lparr>m_way_builder := map_option (add_subitem sub) (m_way_builder s)\<rparr>
      | Some relation_builder \<Rightarrow>
          s\<lparr>m_relation_builder := map_option (add_subitem sub) (m_relation_builder s)\<rparr>
      | Some changeset_builder \<Rightarrow>
          s\<lparr>m_changeset_builder := map_option (add_subitem sub) (m_changeset_builder s)\<rparr>)"

definition reset_tl_builder :: "env \<Rightarrow> xml_parser \<Rightarrow> xml_parser" where
  "reset_tl_builder env s =
     (case m_tl_builder s of None \<Rightarrow> s
      | Some b \<Rightarrow> release_sublist env (sb_parent b) (TagList (sb_list b)) (s\<lparr>m_tl_builder := None\<rparr>))"

definition reset_wnl_builder :: "env \<Rightarrow> xml_parser \<Rightarrow> xml_parser" where
  "reset_wnl_builder env s =
     (case m_wnl_builder s of None \<Rightarrow> s
      | Some b \<Rightarrow>
          release_sublist env (sb_parent b) (WayNodeList (sb_list b)) (s\<lparr>m_wnl_builder := None\<rparr>))"

definition reset_rml_builder :: "env \<Rightarrow> xml_parser \<Rightarrow> xml_parser" where
  "reset_rml_builder env s =
     (case m_rml_builder s of None \<Rightarrow> s
      | Some b \<Rightarrow>
          release_sublist env (sb_parent b) (RelationMemberList (sb_list b))
            (s\<lparr>m_rml_builder := None\<rparr>))"

definition reset_changeset_discussion_builder :: "env \<Rightarrow> xml_parser \<Rightarrow> xml_parser" where
  "reset_changeset_discussion_builder env s =
     (case m_changeset_discussion_builder s of None \<Rightarrow> s
      | Some b \<Rightarrow>
          release_sublist env (sb_parent b) (ChangesetDiscussion (sb_list b))
            (s\<lparr>m_changeset_discussion_builder := None\<rparr>))"

text \<open>The destructor of an object builder leaves the finished item in the buffer.\<close>

definition reset_node_builder :: "env \<Rightarrow> xml_parser \<Rightarrow> xml_parser" where
  "reset_node_builder env s =
     (case m_node_builder s of None \<Rightarrow> s
      | Some b \<Rightarrow> s\<lparr>m_node_builder := None,
                    m_buffer := buffer_add_item env (object_item b) (m_buffer s)\<rparr>)"

definition reset_way_builder :: "env \<Rightarrow> xml_parser \<Rightarrow> xml_parser" where
  "reset_way_builder env s =
     (case m_way_builder s of None \<Rightarrow> s
      | Some b \<Rightarrow> s\<lparr>m_way_builder := None,
                    m_buffer := buffer_add_item env (object_item b) (m_buffer s)\<rparr>)"

definition reset_relation_builder :: "env \<Rightarrow> xml_parser \<Rightarrow> xml_parser" where
  "reset_relation_builder env s =
     (case m_relation_builder s of None \<Rightarrow> s
      | Some b \<Rightarrow> s\<lparr>m_relation_builder := None,
                    m_buffer := buffer_add_item env (object_item b) (m_buffer s)\<rparr>)"

definition reset_changeset_builder :: "env \<Rightarrow> xml_parser \<Rightarrow> xml_parser" where
  "reset_changeset_builder env s =
     (case m_changeset_builder s of None \<Rightarrow> s
      | Some b \<Rightarrow> s\<lparr>m_changeset_builder := None,
                    m_buffer := buffer_add_item env (changeset_item b) (m_buffer s)\<rparr>)"

subsection \<open>Attribute scans\<close>

text \<open>
  \<^verbatim>\<open>check_attributes(attrs, check)\<close> calls the lambda on every name-value pair in
  order. The variables a lambda captures by reference are the accumulator; a lambda that
  throws ends the scan.
\<close>

fun check_attributes :: "attrs \<Rightarrow> (string \<Rightarrow> string \<Rightarrow> 'a \<Rightarrow> error + 'a) \<Rightarrow> 'a \<Rightarrow> error + 'a" where
  "check_attributes [] check acc = Inr acc"
| "check_attributes ((name, val) # rest) check acc =
     (case check name val acc of
        Inl e \<Rightarrow> Inl e
      | Inr acc' \<Rightarrow> check_attributes rest check acc')"

definition init_object_check ::
  "env \<Rightarrow> string \<Rightarrow> string \<Rightarrow> location \<times> string \<times> osm_object
     \<Rightarrow> error + location \<times> string \<times> osm_object" where
  "init_object_check env name val acc =
     (case acc of (location, u, object) \<Rightarrow>
        if name = ''lon'' then Inr (set_lon env (atof_helper env val) location, u, object)
        else if name = ''lat'' then Inr (set_lat env (atof_helper env val) location, u, object)
        else if name = ''user'' then Inr (location, val, object)
        else (case set_attribute env name val object of
                Inl e \<Rightarrow> Inl e
              | Inr object' \<Rightarrow> Inr (location, u, object')))"

text \<open>
  \<^verbatim>\<open>init_object(object, attrs)\<close>, with the member \<^verbatim>\<open>m_in_delete_section\<close> it reads
  as an argument; returns the object and the user name.
\<close>

definition init_object :: "env \<Rightarrow> bool \<Rightarrow> osm_object \<Rightarrow> attrs \<Rightarrow> error + osm_object \<times> string" where
  "init_object env in_delete_section object attrs =
     (let object = (if in_delete_section then set_visible False object else object) in
      case check_attributes attrs (init_object_check env) (Location, [], object) of
        Inl e \<Rightarrow> Inl e
      | Inr (location, u, object) \<Rightarrow>
          Inr (if location_bool location \<and> o_type object = item_type_node
               then set_location location object else object, u))"

definition init_changeset_check ::
  "env \<Rightarrow> string \<Rightarrow> string \<Rightarrow> location \<times> location \<times> string \<times> changeset
     \<Rightarrow> error + location \<times> location \<times> string \<times> changeset" where
  "init_changeset_check env name val acc =
     (case acc of (min_l, max_l, u, new_cs) \<Rightarrow>
        if name = ''min_lon'' then Inr (set_lon env (atof_helper env val) min_l, max_l, u, new_cs)
        else if name = ''min_lat'' then Inr (set_lat env (atof_helper env val) min_l, max_l, u, new_cs)
        else if name = ''max_lon'' then Inr (min_l, set_lon env (atof_helper env val) max_l, u, new_cs)
        else if name = ''max_lat'' then Inr (min_l, set_lat env (atof_helper env val) max_l, u, new_cs)
        else if name = ''user'' then Inr (min_l, max_l, val, new_cs)
        else (case changeset_set_attribute env name val new_cs of
                Inl e \<Rightarrow> Inl e
              | Inr cs' \<Rightarrow> Inr (min_l, max_l, u, cs')))"

definition init_changeset ::
  "env \<Rightarrow> changeset object_builder \<Rightarrow> attrs \<Rightarrow> error + changeset object_builder" where
  "init_changeset env builder attrs =
     (case check_attributes attrs (init_changeset_check env) (Location, Location, [], b_object builder) of
        Inl e \<Rightarrow> Inl e
      | Inr (min_l, max_l, u, new_cs) \<Rightarrow>
          (let new_cs = new_cs\<lparr>cs_bounds := box_extend min_l (cs_bounds new_cs)\<rparr>;
               new_cs = new_cs\<lparr>cs_bounds := box_extend max_l (cs_bounds new_cs)\<rparr>
           in Inr (add_user u (builder\<lparr>b_object := new_cs\<rparr>))))"

definition get_tag_check :: "string \<Rightarrow> string \<Rightarrow> string \<times> string \<Rightarrow> error + string \<times> string" where
  "get_tag_check name val acc =
     (case acc of (k, v) \<Rightarrow>
        if name = ''k'' then Inr (val, v)
        else if name = ''v'' then Inr (k, val)
        else Inr (k, v))"

text \<open>\<^verbatim>\<open>get_tag(builder, attrs)\<close>: \<open>builder\<close> is the parent pointer passed in.\<close>

definition get_tag :: "builder_ref option \<Rightarrow> attrs \<Rightarrow> xml_parser \<Rightarrow> error + xml_parser" where
  "get_tag builder attrs s =
     (case check_attributes attrs get_tag_check ([], []) of
        Inl e \<Rightarrow> Inl e
      | Inr (k, v) \<Rightarrow>
          (let s = (if m_tl_builder s = None
                    then s\<lparr>m_tl_builder := Some \<lparr>sb_parent = builder, sb_list = []\<rparr>\<rparr> else s)
           in case m_tl_builder s of
                None \<Rightarrow> Inl (null_pointer_dereference ''m_tl_builder'')
              | Some tlb \<Rightarrow> Inr (s\<lparr>m_tl_builder := Some (tlb\<lparr>sb_list := add_tag k v (sb_list tlb)\<rparr>)\<rparr>)))"

subsection \<open>flush\_buffer\<close>

definition flush_buffer :: "xml_parser \<Rightarrow> xml_parser" where
  "flush_buffer s =
     (if committed (m_buffer s) > buffer_size div 10 * 9
      then (send_to_output_queue (m_buffer s) s)\<lparr>m_buffer := Buffer buffer_size\<rparr>
      else s)"

subsection \<open>start\_element\<close>

definition root_check :: "string \<Rightarrow> string \<Rightarrow> header \<Rightarrow> error + header" where
  "root_check name val h =
     (if name = ''version'' then
        (let h = header_set ''version'' val h in
         if val \<noteq> ''0.6''
         then Inl (format_version_error (''Can not read file with version '' @ val) val)
         else Inr h)
      else if name = ''generator'' then Inr (header_set ''generator'' val h)
      else Inr h)"

definition start_element_root :: "string \<Rightarrow> attrs \<Rightarrow> xml_parser \<Rightarrow> error + xml_parser" where
  "start_element_root element attrs s =
     (if element = ''osm'' \<or> element = ''osmChange'' then
        (let s = (if element = ''osmChange''
                  then s\<lparr>m_header := set_has_multiple_object_versions True (m_header s)\<rparr> else s)
         in case check_attributes attrs root_check (m_header s) of
              Inl e \<Rightarrow> Inl e
            | Inr h \<Rightarrow>
                if header_get h ''version'' = []
                then Inl (format_version_error
                  ''Can not read file without version (missing version attribute on osm element).'' [])
                else Inr (s\<lparr>m_header := h, m_context := context_top\<rparr>))
      else Inl (xml_error (''Unknown top-level element: '' @ element)))"

definition bounds_check ::
  "env \<Rightarrow> string \<Rightarrow> string \<Rightarrow> location \<times> location \<Rightarrow> error + location \<times> location" where
  "bounds_check env name val acc =
     (case acc of (min_l, max_l) \<Rightarrow>
        if name = ''minlon'' then Inr (set_lon env (atof_helper env val) min_l, max_l)
        else if name = ''minlat'' then Inr (set_lat env (atof_helper env val) min_l, max_l)
        else if name = ''maxlon'' then Inr (min_l, set_lon env (atof_helper env val) max_l)
        else if name = ''maxlat'' then Inr (min_l, set_lat env (atof_helper env val) max_l)
        else Inr (min_l, max_l))"

text \<open>
  Assigning a new builder to a \<^verbatim>\<open>unique_ptr\<close> releases the builder it held before (none,
  in the states the parser reaches).
\<close>

definition start_element_top :: "env \<Rightarrow> string \<Rightarrow> attrs \<Rightarrow> xml_parser \<Rightarrow> error + xml_parser" where
  "start_element_top env element attrs s =
     (if m_tl_builder s \<noteq> None then Inl (assertion_failure ''!m_tl_builder'')
      else if element = ''node'' then
        (let s = mark_header_as_done s in
         if item_type_node \<in> read_types s then
           (let s = reset_node_builder env s;
                builder = OSMObjectBuilder item_type_node
            in case init_object env (m_in_delete_section s) (b_object builder) attrs of
                 Inl e \<Rightarrow> Inl e
               | Inr (object, u) \<Rightarrow>
                   Inr (s\<lparr>m_node_builder := Some (add_user u (builder\<lparr>b_object := object\<rparr>)),
                          m_context := context_node\<rparr>))
         else Inr (s\<lparr>m_context := context_ignored_node\<rparr>))
      else if element = ''way'' then
        (let s = mark_header_as_done s in
         if item_type_way \<in> read_types s then
           (let s = reset_way_builder env s;
                builder = OSMObjectBuilder item_type_way
            in case init_object env (m_in_delete_section s) (b_object builder) attrs of
                 Inl e \<Rightarrow> Inl e
               | Inr (object, u) \<Rightarrow>
                   Inr (s\<lparr>m_way_builder := Some (add_user u (builder\<lparr>b_object := object\<rparr>)),
                          m_context := context_way\<rparr>))
         else Inr (s\<lparr>m_context := context_ignored_way\<rparr>))
      else if element = ''relation'' then
        (let s = mark_header_as_done s in
         if item_type_relation \<in> read_types s then
           (let s = reset_relation_builder env s;
                builder = OSMObjectBuilder item_type_relation
            in case init_object env (m_in_delete_section s) (b_object builder) attrs of
                 Inl e \<Rightarrow> Inl e
               | Inr (object, u) \<Rightarrow>
                   Inr (s\<lparr>m_relation_builder := Some (add_user u (builder\<lparr>b_object := object\<rparr>)),
                          m_context := context_relation\<rparr>))
         else Inr (s\<lparr>m_context := context_ignored_relation\<rparr>))
      else if element = ''changeset'' then
        (let s = mark_header_as_done s in
         if item_type_changeset \<in> read_types s then
           (let s = reset_changeset_builder env s in
            case init_changeset env ChangesetBuilder attrs of
              Inl e \<Rightarrow> Inl e
            | Inr builder \<Rightarrow>
                Inr (s\<lparr>m_changeset_builder := Some builder, m_context := context_changeset\<rparr>))
         else Inr (s\<lparr>m_context := context_ignored_changeset\<rparr>))
      else if element = ''bounds'' then
        (case check_attributes attrs (bounds_check env) (Location, Location) of
           Inl e \<Rightarrow> Inl e
         | Inr (min_l, max_l) \<Rightarrow>
             (let box = box_extend max_l (box_extend min_l [])
              in Inr (s\<lparr>m_header := add_box box (m_header s)\<rparr>)))
      else if element = ''delete'' then Inr (s\<lparr>m_in_delete_section := True\<rparr>)
      else Inr s)"

definition start_element_node :: "string \<Rightarrow> attrs \<Rightarrow> xml_parser \<Rightarrow> error + xml_parser" where
  "start_element_node element attrs s =
     (let s = s\<lparr>m_last_context := context_node, m_context := context_in_object\<rparr> in
      if element = ''tag'' then get_tag (builder_get node_builder s) attrs s
      else Inr s)"

definition nd_check :: "env \<Rightarrow> string \<Rightarrow> string \<Rightarrow> node_ref \<Rightarrow> error + node_ref" where
  "nd_check env name val nr =
     (if name = ''ref'' then
        (case string_to_object_id env val of
           Inl e \<Rightarrow> Inl e
         | Inr r \<Rightarrow> Inr (nr\<lparr>nr_ref := r\<rparr>))
      else if name = ''lon'' then
        Inr (nr\<lparr>nr_location := set_lon env (atof_helper env val) (nr_location nr)\<rparr>)
      else if name = ''lat'' then
        Inr (nr\<lparr>nr_location := set_lat env (atof_helper env val) (nr_location nr)\<rparr>)
      else Inr nr)"

definition start_element_way :: "env \<Rightarrow> string \<Rightarrow> attrs \<Rightarrow> xml_parser \<Rightarrow> error + xml_parser" where
  "start_element_way env element attrs s =
     (let s = s\<lparr>m_last_context := context_way, m_context := context_in_object\<rparr> in
      if element = ''nd'' then
        (let s = reset_tl_builder env s;
             s = (if m_wnl_builder s = None
                  then s\<lparr>m_wnl_builder := Some \<lparr>sb_parent = builder_get way_builder s, sb_list = []\<rparr>\<rparr>
                  else s)
         in case check_attributes attrs (nd_check env) NodeRef of
              Inl e \<Rightarrow> Inl e
            | Inr nr \<Rightarrow>
                (case m_wnl_builder s of
                   None \<Rightarrow> Inl (null_pointer_dereference ''m_wnl_builder'')
                 | Some wnl \<Rightarrow>
                     Inr (s\<lparr>m_wnl_builder := Some (wnl\<lparr>sb_list := add_node_ref nr (sb_list wnl)\<rparr>)\<rparr>)))
      else if element = ''tag'' then
        (let s = reset_wnl_builder env s in get_tag (builder_get way_builder s) attrs s)
      else Inr s)"

definition member_check ::
  "env \<Rightarrow> string \<Rightarrow> string \<Rightarrow> item_type \<times> object_id_type \<times> string
     \<Rightarrow> error + item_type \<times> object_id_type \<times> string" where
  "member_check env name val acc =
     (case acc of (type, ref, role) \<Rightarrow>
        if name = ''type'' then
          Inr (char_to_item_type env (case val of [] \<Rightarrow> CHR 0x00 | c # _ \<Rightarrow> c), ref, role)
        else if name = ''ref'' then
          (case string_to_object_id env val of
             Inl e \<Rightarrow> Inl e
           | Inr r \<Rightarrow> Inr (type, r, role))
        else if name = ''role'' then Inr (type, ref, val)
        else Inr (type, ref, role))"

definition start_element_relation :: "env \<Rightarrow> string \<Rightarrow> attrs \<Rightarrow> xml_parser \<Rightarrow> error + xml_parser" where
  "start_element_relation env element attrs s =
     (let s = s\<lparr>m_last_context := context_relation, m_context := context_in_object\<rparr> in
      if element = ''member'' then
        (let s = reset_tl_builder env s;
             s = (if m_rml_builder s = None
                  then s\<lparr>m_rml_builder := Some \<lparr>sb_parent = builder_get relation_builder s, sb_list = []\<rparr>\<rparr>
                  else s)
         in case check_attributes attrs (member_check env) (item_type_undefined, 0, []) of
              Inl e \<Rightarrow> Inl e
            | Inr (type, ref, role) \<Rightarrow>
                if type \<noteq> item_type_node \<and> type \<noteq> item_type_way \<and> type \<noteq> item_type_relation
                then Inl (xml_error ''Unknown type on relation member'')
                else if ref = 0 then Inl (xml_error ''Missing ref on relation member'')
                else (case m_rml_builder s of
                        None \<Rightarrow> Inl (null_pointer_dereference ''m_rml_builder'')
                      | Some rml \<Rightarrow>
                          (case add_member env type ref role None (sb_list rml) of
                             Inl e \<Rightarrow> Inl e
                           | Inr members \<Rightarrow>
                               Inr (s\<lparr>m_rml_builder := Some (rml\<lparr>sb_list := members\<rparr>)\<rparr>))))
      else if element = ''tag'' then
        (let s = reset_rml_builder env s in get_tag (builder_get relation_builder s) attrs s)
      else Inr s)"

definition start_element_changeset :: "env \<Rightarrow> string \<Rightarrow> attrs \<Rightarrow> xml_parser \<Rightarrow> error + xml_parser" where
  "start_element_changeset env element attrs s =
     (let s = s\<lparr>m_last_context := context_changeset\<rparr> in
      if element = ''discussion'' then
        (let s = s\<lparr>m_context := context_discussion\<rparr>;
             s = reset_tl_builder env s
         in Inr (if m_changeset_discussion_builder s = None
                 then s\<lparr>m_changeset_discussion_builder :=
                          Some \<lparr>sb_parent = builder_get changeset_builder s, sb_list = []\<rparr>\<rparr>
                 else s))
      else if element = ''tag'' then
        (let s = s\<lparr>m_context := context_in_object\<rparr>;
             s = reset_changeset_discussion_builder env s
         in get_tag (builder_get changeset_builder s) attrs s)
      else Inr s)"

definition comment_check ::
  "env \<Rightarrow> string \<Rightarrow> string \<Rightarrow> timestamp \<times> user_id_type \<times> string
     \<Rightarrow> error + timestamp \<times> user_id_type \<times> string" where
  "comment_check env name val acc =
     (case acc of (date, uid, u) \<Rightarrow>
        if name = ''date'' then
          (case string_to_timestamp env val of
             Inl e \<Rightarrow> Inl e
           | Inr d \<Rightarrow> Inr (d, uid, u))
        else if name = ''uid'' then
          (case string_to_user_id env val of
             Inl e \<Rightarrow> Inl e
           | Inr i \<Rightarrow> Inr (date, i, u))
        else if name = ''user'' then Inr (date, uid, val)
        else Inr (date, uid, u))"

definition start_element_discussion :: "env \<Rightarrow> string \<Rightarrow> attrs \<Rightarrow> xml_parser \<Rightarrow> error + xml_parser" where
  "start_element_discussion env element attrs s =
     (if element = ''comment'' then
        (let s = s\<lparr>m_context := context_comment\<rparr> in
         case check_attributes attrs (comment_check env) (0, 0, []) of
           Inl e \<Rightarrow> Inl e
         | Inr (date, uid, u) \<Rightarrow>
             (case m_changeset_discussion_builder s of
                None \<Rightarrow> Inl (null_pointer_dereference ''m_changeset_discussion_builder'')
              | Some d \<Rightarrow>
                  Inr (s\<lparr>m_changeset_discussion_builder :=
                         Some (d\<lparr>sb_list := add_comment date uid u (sb_list d)\<rparr>)\<rparr>)))
      else Inr s)"

definition start_element :: "env \<Rightarrow> string \<Rightarrow> attrs \<Rightarrow> xml_parser \<Rightarrow> error + xml_parser" where
  "start_element env element attrs s =
     (case m_context s of
        context_root \<Rightarrow> start_element_root element attrs s
      | context_top \<Rightarrow> start_element_top env element attrs s
      | context_node \<Rightarrow> start_element_node element attrs s
      | context_way \<Rightarrow> start_element_way env element attrs s
      | context_relation \<Rightarrow> start_element_relation env element attrs s
      | context_changeset \<Rightarrow> start_element_changeset env element attrs s
      | context_discussion \<Rightarrow> start_element_discussion env element attrs s
      | context_comment \<Rightarrow>
          Inr (if element = ''text'' then s\<lparr>m_context := context_comment_text\<rparr> else s)
      | context_comment_text \<Rightarrow> Inr s
      | context_ignored_node \<Rightarrow> Inr s
      | context_ignored_way \<Rightarrow> Inr s
      | context_ignored_relation \<Rightarrow> Inr s
      | context_ignored_changeset \<Rightarrow> Inr s
      | context_in_object \<Rightarrow> Inl (assertion_failure ''false''))"

subsection \<open>end\_element and characters\<close>

definition end_element :: "env \<Rightarrow> string \<Rightarrow> xml_parser \<Rightarrow> error + xml_parser" where
  "end_element env element s =
     (case m_context s of
        context_root \<Rightarrow> Inl (assertion_failure ''false'')
      | context_top \<Rightarrow>
          if element = ''osm'' \<or> element = ''osmChange''
          then Inr ((mark_header_as_done s)\<lparr>m_context := context_root\<rparr>)
          else if element = ''delete'' then Inr (s\<lparr>m_in_delete_section := False\<rparr>)
          else Inr s
      | context_node \<Rightarrow>
          if element \<noteq> ''node'' then Inl (assertion_failure ''!std::strcmp(element, node)'')
          else (let s = reset_tl_builder env s;
                    s = reset_node_builder env s;
                    s = s\<lparr>m_buffer := commit (m_buffer s)\<rparr>;
                    s = s\<lparr>m_context := context_top\<rparr>
                in Inr (flush_buffer s))
      | context_way \<Rightarrow>
          if element \<noteq> ''way'' then Inl (assertion_failure ''!std::strcmp(element, way)'')
          else (let s = reset_tl_builder env s;
                    s = reset_wnl_builder env s;
                    s = reset_way_builder env s;
                    s = s\<lparr>m_buffer := commit (m_buffer s)\<rparr>;
                    s = s\<lparr>m_context := context_top\<rparr>
                in Inr (flush_buffer s))
      | context_relation \<Rightarrow>
          if element \<noteq> ''relation''
          then Inl (assertion_failure ''!std::strcmp(element, relation)'')
          else (let s = reset_tl_builder env s;
                    s = reset_rml_builder env s;
                    s = reset_relation_builder env s;
                    s = s\<lparr>m_buffer := commit (m_buffer s)\<rparr>;
                    s = s\<lparr>m_context := context_top\<rparr>
                in Inr (flush_buffer s))
      | context_changeset \<Rightarrow>
          if element \<noteq> ''changeset''
          then Inl (assertion_failure ''!std::strcmp(element, changeset)'')
          else (let s = reset_tl_builder env s;
                    s = reset_changeset_discussion_builder env s;
                    s = reset_changeset_builder env s;
                    s = s\<lparr>m_buffer := commit (m_buffer s)\<rparr>;
                    s = s\<lparr>m_context := context_top\<rparr>
                in Inr (flush_buffer s))
      | context_discussion \<Rightarrow>
          if element \<noteq> ''discussion''
          then Inl (assertion_failure ''!std::strcmp(element, discussion)'')
          else Inr (s\<lparr>m_context := context_changeset\<rparr>)
      | context_comment \<Rightarrow>
          if element \<noteq> ''comment''
          then Inl (assertion_failure ''!std::strcmp(element, comment)'')
          else Inr (s\<lparr>m_context := context_discussion\<rparr>)
      | context_comment_text \<Rightarrow>
          if element \<noteq> ''text'' then Inl (assertion_failure ''!std::strcmp(element, text)'')
          else (let s = s\<lparr>m_context := context_comment\<rparr> in
                case m_changeset_discussion_builder s of
                  None \<Rightarrow> Inl (null_pointer_dereference ''m_changeset_discussion_builder'')
                | Some d \<Rightarrow>
                    Inr (s\<lparr>m_changeset_discussion_builder :=
                           Some (d\<lparr>sb_list := add_comment_text (m_comment_text s) (sb_list d)\<rparr>)\<rparr>))
      | context_in_object \<Rightarrow> Inr (s\<lparr>m_context := m_last_context s\<rparr>)
      | context_ignored_node \<Rightarrow>
          Inr (if element = ''node'' then s\<lparr>m_context := context_top\<rparr> else s)
      | context_ignored_way \<Rightarrow>
          Inr (if element = ''way'' then s\<lparr>m_context := context_top\<rparr> else s)
      | context_ignored_relation \<Rightarrow>
          Inr (if element = ''relation'' then s\<lparr>m_context := context_top\<rparr> else s)
      | context_ignored_changeset \<Rightarrow>
          Inr (if element = ''changeset'' then s\<lparr>m_context := context_top\<rparr> else s))"

definition characters :: "string \<Rightarrow> xml_parser \<Rightarrow> xml_parser" where
  "characters text s =
     (if m_context s = context_comment_text
      then s\<lparr>m_comment_text := m_comment_text s @ text\<rparr>
      else s\<lparr>m_comment_text := []\<rparr>)"

subsection \<open>The Expat wrapper and run\<close>

text \<open>
  What Expat does with a chunk of input: it calls the element handlers, the character data
  handler and the entity declaration handler, or reports \<^verbatim>\<open>XML_STATUS_ERROR\<close>.
\<close>

datatype xml_event =
    StartElement string attrs
  | EndElement string
  | CharacterData string
  | EntityDecl
  | XML_STATUS_ERROR string

definition callback :: "env \<Rightarrow> xml_event \<Rightarrow> xml_parser \<Rightarrow> error + xml_parser" where
  "callback env ev s =
     (case ev of
        StartElement element attrs \<Rightarrow> start_element env element attrs s
      | EndElement element \<Rightarrow> end_element env element s
      | CharacterData text \<Rightarrow> Inr (characters text s)
      | EntityDecl \<Rightarrow> Inl (xml_error ''XML entities are not supported'')
      | XML_STATUS_ERROR msg \<Rightarrow> Inl (xml_error msg))"

text \<open>
  \<^verbatim>\<open>ExpatXMLParser::operator()\<close> on one chunk. An exception leaves \<^verbatim>\<open>run\<close>; the
  result then is the exception together with the output queue as it is at that moment (no
  callback pushes a buffer before it throws).
\<close>

fun expat_parse :: "env \<Rightarrow> xml_event list \<Rightarrow> xml_parser \<Rightarrow> error \<times> buffer list + xml_parser" where
  "expat_parse env [] s = Inr s"
| "expat_parse env (ev # evs) s =
     (case callback env ev s of
        Inl e \<Rightarrow> Inl (e, output_queue s)
      | Inr s' \<Rightarrow> expat_parse env evs s')"

text \<open>
  The loop of \<^verbatim>\<open>run\<close>. Modelled from the spec: the input queue of the base class
  \<^verbatim>\<open>Parser\<close> is the list of the chunks still to come, and the input is done when
  it is empty.
\<close>

fun run_loop :: "env \<Rightarrow> xml_event list list \<Rightarrow> xml_parser \<Rightarrow> error \<times> buffer list + xml_parser" where
  "run_loop env [] s = Inr s"
| "run_loop env (data # input) s =
     (case expat_parse env data s of
        Inl e \<Rightarrow> Inl e
      | Inr s' \<Rightarrow>
          if read_types s' = {} \<and> header_is_done s' then Inr s'
          else run_loop env input s')"

definition run :: "env \<Rightarrow> xml_event list list \<Rightarrow> xml_parser \<Rightarrow> error \<times> buffer list + xml_parser" where
  "run env input s =
     (case run_loop env input s of
        Inl e \<Rightarrow> Inl e
      | Inr s \<Rightarrow>
          (let s = mark_header_as_done s in
           Inr (if committed (m_buffer s) > 0 then send_to_output_queue (m_buffer s) s else s)))"

subsection \<open>An instance of the parameters\<close>

text \<open>
  Modelled from the spec: conversions with which the parser can be evaluated on concrete
  input. Ids, versions, uids and timestamps are read as unsigned decimal numbers and
  anything else is refused; \<^verbatim>\<open>visible\<close> is \<^verbatim>\<open>true\<close> or \<^verbatim>\<open>false\<close>; the member
  types are \<^verbatim>\<open>n\<close>, \<^verbatim>\<open>w\<close> and \<^verbatim>\<open>r\<close>. The sources do not determine the size of
  an item; the instance takes one alignment word of 8 bytes for every item. String sizes
  are taken to be 16 bits wide. Coordinates are
  not evaluated: every extraction yields 0.
\<close>

definition digit_of :: "char \<Rightarrow> nat option" where
  "digit_of c =
     (let n = (of_char c :: nat) in
      if 48 \<le> n \<and> n \<le> 57 then Some (n - 48) else None)"

fun decimal :: "nat \<Rightarrow> string \<Rightarrow> nat option" where
  "decimal acc [] = Some acc"
| "decimal acc (c # cs) =
     (case digit_of c of None \<Rightarrow> None | Some d \<Rightarrow> decimal (10 * acc + d) cs)"

definition string_to_number :: "string \<Rightarrow> error + 'a::len word" where
  "string_to_number str =
     (if str = [] then Inl (conversion_error str)
      else case decimal 0 str of
             None \<Rightarrow> Inl (conversion_error str)
           | Some n \<Rightarrow> Inr (of_nat n))"

definition sample_env :: env where
  "sample_env = \<lparr>
     string_to_object_id = string_to_number,
     string_to_object_version = string_to_number,
     string_to_changeset_id = string_to_number,
     string_to_user_id = string_to_number,
     string_to_timestamp = string_to_number,
     string_to_visible = (\<lambda>str. if str = ''true'' then Inr True
                                 else if str = ''false'' then Inr False
                                 else Inl (conversion_error str)),
     char_to_item_type = (\<lambda>c. if c = CHR ''n'' then item_type_node
                              else if c = CHR ''w'' then item_type_way
                              else if c = CHR ''r'' then item_type_relation
                              else item_type_undefined),
     istream_extract_double = (\<lambda>str. 0),
     double_to_fix = (\<lambda>d. 0),
     changeset_set_attribute = (\<lambda>name val cs. Inr (cs\<lparr>cs_attributes := cs_attributes cs @ [(name, val)]\<rparr>)),
     item_size = (\<lambda>i. 8),
     string_size_max = 65535\<rparr>"

subsection \<open>Notions used in the statements\<close>

text \<open>
  The value an attribute scan ends with for an attribute name: that of the last attribute of
  that name (the only one in well-formed XML), if there is one.
\<close>

definition attribute :: "string \<Rightarrow> attrs \<Rightarrow> string option" where
  "attribute name as = map_of (rev as) name"







text \<open>The members of the relation member list under construction.\<close>

definition members_of :: "relation_member sublist_builder option \<Rightarrow> relation_member list" where
  "members_of b = (case b of None \<Rightarrow> [] | Some rml \<Rightarrow> sb_list rml)"

text \<open>The first attribute of a name (the only one in well-formed XML), if there is one.\<close>

definition first_attribute :: "string \<Rightarrow> attrs \<Rightarrow> string option" where
  "first_attribute name as = map_of as name"

text \<open>A callback of the character data handler.\<close>

definition is_character_data :: "xml_event \<Rightarrow> bool" where
  "is_character_data ev = (case ev of CharacterData chars \<Rightarrow> True | _ \<Rightarrow> False)"

text \<open>The element name that an IGNORED context waits for.\<close>

definition ignored_element :: "parser_context \<Rightarrow> string" where
  "ignored_element c =
     (case c of
        context_ignored_node \<Rightarrow> ''node''
      | context_ignored_way \<Rightarrow> ''way''
      | context_ignored_relation \<Rightarrow> ''relation''
      | context_ignored_changeset \<Rightarrow> ''changeset''
      | _ \<Rightarrow> [])"

text \<open>Views of the result of a parse: the context it ends in, and the sublists of the items
  it has written to the current buffer.\<close>

definition context_after :: "error \<times> buffer list + xml_parser \<Rightarrow> parser_context option" where
  "context_after r = (case r of Inl e \<Rightarrow> None | Inr s \<Rightarrow> Some (m_context s))"

definition item_subitems :: "item \<Rightarrow> subitem list" where
  "item_subitems i =
     (case i of object_item b \<Rightarrow> b_subitems b | changeset_item b \<Rightarrow> b_subitems b
      | list_item l \<Rightarrow> [l])"

definition written_subitems :: "error \<times> buffer list + xml_parser \<Rightarrow> subitem list list" where
  "written_subitems r =
     (case r of Inl e \<Rightarrow> [] | Inr s \<Rightarrow> map item_subitems (items (m_buffer s)))"

text \<open>
  The callbacks for a changeset with two comments and no character data between the
  elements:
  \<^verbatim>\<open><osm version="0.6"><changeset id="1"><discussion><comment uid="7" user="a"><text>hi</text></comment><comment uid="8" user="b"><text>yo</text></comment></discussion></changeset>\<close>
\<close>

definition two_comments :: "xml_event list" where
  "two_comments =
     [StartElement ''osm'' [(''version'', ''0.6'')],
      StartElement ''changeset'' [(''id'', ''1'')],
      StartElement ''discussion'' [],
      StartElement ''comment'' [(''uid'', ''7''), (''user'', ''a'')],
      StartElement ''text'' [], CharacterData ''hi'', EndElement ''text'',
      EndElement ''comment'',
      StartElement ''comment'' [(''uid'', ''8''), (''user'', ''b'')],
      StartElement ''text'' [], CharacterData ''yo'', EndElement ''text'',
      EndElement ''comment'',
      EndElement ''discussion'',
      EndElement ''changeset'']"

text \<open>
  The builders of the parser seen as lists: the parent pointers of the sublist builders that
  are live, the sublists they are building, and the items the object builders are building.
\<close>

definition sublist_parents :: "xml_parser \<Rightarrow> builder_ref option list" where
  "sublist_parents s =
     (case m_tl_builder s of None \<Rightarrow> [] | Some b \<Rightarrow> [sb_parent b]) @
     (case m_wnl_builder s of None \<Rightarrow> [] | Some b \<Rightarrow> [sb_parent b]) @
     (case m_rml_builder s of None \<Rightarrow> [] | Some b \<Rightarrow> [sb_parent b]) @
     (case m_changeset_discussion_builder s of None \<Rightarrow> [] | Some b \<Rightarrow> [sb_parent b])"

definition live_sublists :: "xml_parser \<Rightarrow> subitem list" where
  "live_sublists s =
     (case m_tl_builder s of None \<Rightarrow> [] | Some b \<Rightarrow> [TagList (sb_list b)]) @
     (case m_wnl_builder s of None \<Rightarrow> [] | Some b \<Rightarrow> [WayNodeList (sb_list b)]) @
     (case m_rml_builder s of None \<Rightarrow> [] | Some b \<Rightarrow> [RelationMemberList (sb_list b)]) @
     (case m_changeset_discussion_builder s of None \<Rightarrow> []
      | Some b \<Rightarrow> [ChangesetDiscussion (sb_list b)])"

definition current_items :: "xml_parser \<Rightarrow> item list" where
  "current_items s =
     (case m_node_builder s of None \<Rightarrow> [] | Some b \<Rightarrow> [object_item b]) @
     (case m_way_builder s of None \<Rightarrow> [] | Some b \<Rightarrow> [object_item b]) @
     (case m_relation_builder s of None \<Rightarrow> [] | Some b \<Rightarrow> [object_item b]) @
     (case m_changeset_builder s of None \<Rightarrow> [] | Some b \<Rightarrow> [changeset_item b])"

text \<open>
  No builder is live.
\<close>

definition builders_free :: "xml_parser \<Rightarrow> bool" where
  "builders_free s \<longleftrightarrow> current_items s = [] \<and> live_sublists s = []"

text \<open>
  The object builder that belongs to a context inside an entity.
\<close>

definition entity_of :: "parser_context \<Rightarrow> builder_ref option" where
  "entity_of c =
     (case c of
        context_node \<Rightarrow> Some node_builder
      | context_way \<Rightarrow> Some way_builder
      | context_relation \<Rightarrow> Some relation_builder
      | context_changeset \<Rightarrow> Some changeset_builder
      | context_discussion \<Rightarrow> Some changeset_builder
      | context_comment \<Rightarrow> Some changeset_builder
      | context_comment_text \<Rightarrow> Some changeset_builder
      | _ \<Rightarrow> None)"

text \<open>
  Inside the entity built by the object builder \<open>r\<close>: that builder is the only object
  builder, at most one sublist builder is live, its parent is \<open>r\<close>, and it is of a kind
  that the entity has.
\<close>

definition entity_ok :: "builder_ref \<Rightarrow> xml_parser \<Rightarrow> bool" where
  "entity_ok r s \<longleftrightarrow>
     builder_get r s = Some r \<and> length (current_items s) = 1 \<and>
     length (sublist_parents s) \<le> 1 \<and> list_all (\<lambda>p. p = Some r) (sublist_parents s) \<and>
     (case r of
        node_builder \<Rightarrow>
          m_wnl_builder s = None \<and> m_rml_builder s = None \<and> m_changeset_discussion_builder s = None
      | way_builder \<Rightarrow> m_rml_builder s = None \<and> m_changeset_discussion_builder s = None
      | relation_builder \<Rightarrow> m_wnl_builder s = None \<and> m_changeset_discussion_builder s = None
      | changeset_builder \<Rightarrow> m_wnl_builder s = None \<and> m_rml_builder s = None)"

text \<open>
  The invariant of the builders, by context.
\<close>

definition builders_ok :: "xml_parser \<Rightarrow> bool" where
  "builders_ok s =
     (case m_context s of
        context_in_object \<Rightarrow>
          (case entity_of (m_last_context s) of None \<Rightarrow> False | Some r \<Rightarrow> entity_ok r s)
      | c \<Rightarrow> (case entity_of c of None \<Rightarrow> builders_free s | Some r \<Rightarrow> entity_ok r s))"

text \<open>
  A sublist builder, if live, has the parent \<open>r\<close>.
\<close>

definition parent_is :: "builder_ref \<Rightarrow> 'a sublist_builder option \<Rightarrow> bool" where
  "parent_is r b = (case b of None \<Rightarrow> True | Some t \<Rightarrow> sb_parent t = Some r)"

text \<open>
  The state after an entity has been closed and committed, before \<^verbatim>\<open>flush_buffer\<close>:
  all builders released, the item \<open>i\<close> added to the buffer and committed, context TOP.
\<close>

definition closed_state :: "item \<Rightarrow> env \<Rightarrow> xml_parser \<Rightarrow> xml_parser" where
  "closed_state i env s =
     s\<lparr>m_node_builder := None, m_way_builder := None, m_relation_builder := None,
       m_changeset_builder := None, m_changeset_discussion_builder := None,
       m_tl_builder := None, m_wnl_builder := None, m_rml_builder := None,
       m_buffer := commit (buffer_add_item env i (m_buffer s)), m_context := context_top\<rparr>"

text \<open>
  The element name that closes the entity of a context.
\<close>

definition entity_element :: "parser_context \<Rightarrow> string" where
  "entity_element c =
     (case c of
        context_node \<Rightarrow> ''node''
      | context_way \<Rightarrow> ''way''
      | context_relation \<Rightarrow> ''relation''
      | context_changeset \<Rightarrow> ''changeset''
      | _ \<Rightarrow> [])"

text \<open>
  Concrete states and parameters for evaluation: the state after
  \<^verbatim>\<open><osm version="0.6"><node id="1">\<close> when nodes are read, and parameters under which
  every item takes 1800001 bytes.
\<close>

definition osm_start :: "xml_event list" where
  "osm_start =
     [StartElement ''osm'' [(''version'', ''0.6'')], StartElement ''node'' [(''id'', ''1'')]]"

definition node_open :: xml_parser where
  "node_open = (XMLParser {item_type_node})\<lparr>
     header_promise := Some (header_set ''version'' ''0.6'' Header),
     m_context := context_node,
     m_header := header_set ''version'' ''0.6'' Header,
     m_node_builder :=
       Some ((OSMObjectBuilder item_type_node)\<lparr>b_object := (new_object item_type_node)\<lparr>o_id := 1\<rparr>\<rparr>)\<rparr>"

definition heavy_env :: env where
  "heavy_env = sample_env\<lparr>item_size := (\<lambda>i. 1800001)\<rparr>"

text \<open>
  What the \<^verbatim>\<open>visible\<close> attribute of an element says: nothing when there is none, else
  whether the value of the last one converts to true.
\<close>

definition visible_attribute :: "env \<Rightarrow> attrs \<Rightarrow> bool option" where
  "visible_attribute env as =
     (case attribute ''visible'' as of None \<Rightarrow> None
      | Some v \<Rightarrow> Some (string_to_visible env v = Inr True))"

text \<open>The objects in the buffers of the output queue after a run.\<close>

definition emitted_objects :: "error \<times> buffer list + xml_parser \<Rightarrow> osm_object list" where
  "emitted_objects r =
     (case r of Inl e \<Rightarrow> []
      | Inr s \<Rightarrow>
          concat (map (\<lambda>i. case i of object_item b \<Rightarrow> [b_object b] | _ \<Rightarrow> [])
            (concat (map items (output_queue s)))))"

text \<open>
  The callbacks for
  \<^verbatim>\<open><osmChange version="0.6"><delete><node id="9" version="3" visible="true"/></delete></osmChange>\<close>.
\<close>

definition delete_visible_true :: "xml_event list" where
  "delete_visible_true =
     [StartElement ''osmChange'' [(''version'', ''0.6'')],
      StartElement ''delete'' [],
      StartElement ''node'' [(''id'', ''9''), (''version'', ''3''), (''visible'', ''true'')],
      EndElement ''node'',
      EndElement ''delete'',
      EndElement ''osmChange'']"

text \<open>
  Two sublists are of the same kind: both tag lists, both way-node lists, both relation
  member lists or both discussions.
\<close>

fun same_kind :: "subitem \<Rightarrow> subitem \<Rightarrow> bool" where
  "same_kind (TagList a) (TagList b) = True"
| "same_kind (WayNodeList a) (WayNodeList b) = True"
| "same_kind (RelationMemberList a) (RelationMemberList b) = True"
| "same_kind (ChangesetDiscussion a) (ChangesetDiscussion b) = True"
| "same_kind x y = False"

text \<open>
  The item of an object builder once the sublists \<open>subs\<close> have been closed inside it.
\<close>

definition close_item :: "subitem list \<Rightarrow> item \<Rightarrow> item" where
  "close_item subs i =
     (case i of
        object_item b \<Rightarrow> object_item (b\<lparr>b_subitems := b_subitems b @ subs\<rparr>)
      | changeset_item b \<Rightarrow> changeset_item (b\<lparr>b_subitems := b_subitems b @ subs\<rparr>)
      | list_item l \<Rightarrow> list_item l)"

text \<open>
  The sublists that have been closed inside the entity under construction.
\<close>

definition entity_subitems :: "xml_parser \<Rightarrow> subitem list" where
  "entity_subitems s = concat (map item_subitems (current_items s))"

text \<open>
  The callbacks for \<^verbatim>\<open><osm version="0.6"><way id="10"><tag k="h" v="yes"/>\<close>, and the state
  the parser is in after them when ways are read.
\<close>

definition way_tag :: "xml_event list" where
  "way_tag =
     [StartElement ''osm'' [(''version'', ''0.6'')], StartElement ''way'' [(''id'', ''10'')],
      StartElement ''tag'' [(''k'', ''h''), (''v'', ''yes'')], EndElement ''tag'']"

definition way_open :: xml_parser where
  "way_open = (XMLParser {item_type_way})\<lparr>
     header_promise := Some (header_set ''version'' ''0.6'' Header),
     m_context := context_way,
     m_last_context := context_way,
     m_header := header_set ''version'' ''0.6'' Header,
     m_way_builder :=
       Some ((OSMObjectBuilder item_type_way)\<lparr>b_object := (new_object item_type_way)\<lparr>o_id := 10\<rparr>\<rparr>),
     m_tl_builder := Some \<lparr>sb_parent = Some way_builder, sb_list = [(''h'', ''yes'')]\<rparr>\<rparr>"

text \<open>
  A relation member as \<^verbatim>\<open>add_member\<close> writes it when no full member is given: the flag
  \<^verbatim>\<open>has_full_member\<close> is false and no item is embedded after the record.
\<close>

definition member_plain :: "relation_member \<Rightarrow> bool" where
  "member_plain m \<longleftrightarrow> \<not> rm_full_member m \<and> rm_item m = None"

text \<open>
  A sublist, an item, a buffer all of whose relation members are of that form.
\<close>

definition subitem_plain :: "subitem \<Rightarrow> bool" where
  "subitem_plain sub =
     (case sub of RelationMemberList ms \<Rightarrow> list_all member_plain ms | _ \<Rightarrow> True)"

definition item_plain :: "item \<Rightarrow> bool" where
  "item_plain i = list_all subitem_plain (item_subitems i)"

definition buffer_plain :: "buffer \<Rightarrow> bool" where
  "buffer_plain b = list_all item_plain (items b)"

text \<open>
  A parser state all of whose relation members are of that form: those in the output
  queue, in the buffer, in the items under construction and in the sublist under
  construction.
\<close>

definition parser_plain :: "xml_parser \<Rightarrow> bool" where
  "parser_plain s \<longleftrightarrow>
     list_all buffer_plain (output_queue s) \<and> buffer_plain (m_buffer s) \<and>
     list_all item_plain (current_items s) \<and> list_all subitem_plain (live_sublists s)"

text \<open>
  The buffers a run leaves in the output queue, also when it ends with an exception.
\<close>

definition produced :: "error \<times> buffer list + xml_parser \<Rightarrow> buffer list" where
  "produced r = (case r of Inl (e, q) \<Rightarrow> q | Inr s \<Rightarrow> output_queue s)"

text \<open>
  The same for an object builder that may be absent, and for the result of a parse.
\<close>

definition builder_plain :: "'h object_builder option \<Rightarrow> bool" where
  "builder_plain bo = (case bo of None \<Rightarrow> True | Some b \<Rightarrow> list_all subitem_plain (b_subitems b))"

definition result_plain :: "error \<times> buffer list + xml_parser \<Rightarrow> bool" where
  "result_plain r = (case r of Inl (e, q) \<Rightarrow> list_all buffer_plain q | Inr s \<Rightarrow> parser_plain s)"

text \<open>
  The relation members of a sublist, those in the buffers a run has produced, and those
  of the relation member list under construction after a parse.
\<close>

definition subitem_members :: "subitem \<Rightarrow> relation_member list" where
  "subitem_members sub = (case sub of RelationMemberList ms \<Rightarrow> ms | _ \<Rightarrow> [])"

definition produced_members :: "error \<times> buffer list + xml_parser \<Rightarrow> relation_member list" where
  "produced_members r =
     concat (map subitem_members (concat (map item_subitems (concat (map items (produced r))))))"

definition pending_members :: "error \<times> buffer list + xml_parser \<Rightarrow> relation_member list" where
  "pending_members r = (case r of Inl e \<Rightarrow> [] | Inr s \<Rightarrow> members_of (m_rml_builder s))"

text \<open>
  The callbacks for
  \<^verbatim>\<open><osm version="0.6"><relation id="1"><member type="w" ref="2" role="outer"/></relation></osm>\<close>.
\<close>

definition relation_with_member :: "xml_event list" where
  "relation_with_member =
     [StartElement ''osm'' [(''version'', ''0.6'')],
      StartElement ''relation'' [(''id'', ''1'')],
      StartElement ''member'' [(''type'', ''w''), (''ref'', ''2''), (''role'', ''outer'')],
      EndElement ''member'', EndElement ''relation'', EndElement ''osm'']"

section \<open>Properties\<close>

subsection \<open>Attribute scans\<close>

lemma attribute_Nil [simp]: "attribute name [] = None"
  by (simp add: attribute_def)

lemma attribute_Cons:
  "attribute name ((n, v) # as) =
     (case attribute name as of Some x \<Rightarrow> Some x | None \<Rightarrow> if n = name then Some v else None)"
  by (simp add: attribute_def map_add_def split: option.splits)



subsection \<open>Tags\<close>

lemma m_tl_builder_release_sublist [simp]:
  "m_tl_builder (release_sublist env p sub s) = m_tl_builder s"
  by (simp add: release_sublist_def split: option.splits builder_ref.splits)

lemma m_tl_builder_reset_wnl [simp]: "m_tl_builder (reset_wnl_builder env s) = m_tl_builder s"
  by (simp add: reset_wnl_builder_def split: option.splits)

lemma m_tl_builder_reset_rml [simp]: "m_tl_builder (reset_rml_builder env s) = m_tl_builder s"
  by (simp add: reset_rml_builder_def split: option.splits)

lemma m_tl_builder_reset_discussion [simp]:
  "m_tl_builder (reset_changeset_discussion_builder env s) = m_tl_builder s"
  by (simp add: reset_changeset_discussion_builder_def split: option.splits)




subsection \<open>Relation members\<close>




lemma m_rml_builder_release_sublist [simp]:
  "m_rml_builder (release_sublist env p sub s) = m_rml_builder s"
  by (simp add: release_sublist_def split: option.splits builder_ref.splits)

lemma m_rml_builder_reset_tl [simp]: "m_rml_builder (reset_tl_builder env s) = m_rml_builder s"
  by (simp add: reset_tl_builder_def split: option.splits)

lemma add_member_plain:
  "add_member env t r role None ms =
     (if length role + 1 \<le> string_size_max env
      then Inr (ms @ [\<lparr>rm_ref = r, rm_type = t, rm_full_member = False,
                       rm_role_size = length role + 1, rm_role = role, rm_item = None\<rparr>])
      else Inl (assertion_failure ''static_cast_with_assert<string_size_type>''))"
  by (simp add: add_member_def add_role_def static_cast_with_assert_def)




subsection \<open>Evaluation on concrete input\<close>

lemmas eval_defs =
  run_def XMLParser_def callback_def start_element_def start_element_root_def
  start_element_top_def end_element_def root_check_def header_set_def header_get_def
  set_has_multiple_object_versions_def Header_def mark_header_as_done_def set_header_value_def
  reset_node_builder_def reset_tl_builder_def init_object_def init_object_check_def
  set_attribute_def sample_env_def string_to_number_def digit_of_def OSMObjectBuilder_def
  new_object_def Location_def location_bool_def set_visible_def add_user_def commit_def
  flush_buffer_def buffer_add_item_def Buffer_def buffer_size_def send_to_output_queue_def
  header_is_done_def undefined_coordinate_def start_element_changeset_def
  start_element_discussion_def comment_check_def add_comment_def add_comment_text_def
  characters_def init_changeset_def init_changeset_check_def ChangesetBuilder_def
  new_changeset_def box_extend_def reset_changeset_builder_def
  reset_changeset_discussion_builder_def release_sublist_def builder_get_def add_subitem_def
  start_element_node_def start_element_way_def start_element_relation_def get_tag_def
  get_tag_check_def add_tag_def nd_check_def member_check_def add_node_ref_def add_member_def
  add_role_def static_cast_with_assert_def reset_wnl_builder_def reset_rml_builder_def reset_way_builder_def
  reset_relation_builder_def NodeRef_def set_lon_def set_lat_def atof_helper_def
  bounds_check_def add_box_def set_location_def

subsection \<open>The version gate\<close>

lemma root_check_simp:
  "root_check n x h =
     (if n = ''version'' then
        (if x \<noteq> ''0.6''
         then Inl (format_version_error (''Can not read file with version '' @ x) x)
         else Inr (header_set ''version'' x h))
      else if n = ''generator'' then Inr (header_set ''generator'' x h)
      else Inr h)"
  by (simp add: root_check_def Let_def)

lemma root_scan_bad_version:
  "first_attribute ''version'' as = Some v \<Longrightarrow> v \<noteq> ''0.6'' \<Longrightarrow>
   check_attributes as root_check h =
     Inl (format_version_error (''Can not read file with version '' @ v) v)"
proof (induction as arbitrary: h)
  case Nil
  then show ?case by (simp add: first_attribute_def)
next
  case (Cons a as)
  obtain n x where a: "a = (n, x)" by (cases a)
  show ?case
  proof (cases "n = ''version''")
    case True
    then have "x = v" using Cons.prems(1) by (simp add: first_attribute_def a)
    then have "root_check n x h =
        Inl (format_version_error (''Can not read file with version '' @ v) v)"
      using True Cons.prems(2) by (simp add: root_check_simp)
    then show ?thesis by (simp add: a)
  next
    case False
    then have "first_attribute ''version'' as = Some v"
      using Cons.prems(1) by (simp add: first_attribute_def a)
    moreover obtain h1 where "root_check n x h = Inr h1"
      using False by (cases "n = ''generator''") (simp_all add: root_check_simp)
    ultimately show ?thesis
      using Cons.IH [of h1] Cons.prems(2) by (simp add: a)
  qed
qed

lemma map_of_filter_other:
  "k \<noteq> k' \<Longrightarrow> map_of (filter (\<lambda>kv. fst kv \<noteq> k) xs) k' = map_of xs k'"
  by (induction xs) auto

lemma header_get_set_other:
  "k \<noteq> k' \<Longrightarrow> header_get (header_set k v h) k' = header_get h k'"
  by (simp add: header_get_def header_set_def map_of_filter_other)

lemma root_scan_no_version:
  "first_attribute ''version'' as = None \<Longrightarrow>
   \<exists>h'. check_attributes as root_check h = Inr h' \<and>
     header_get h' ''version'' = header_get h ''version''"
proof (induction as arbitrary: h)
  case Nil
  then show ?case by simp
next
  case (Cons a as)
  obtain n x where a: "a = (n, x)" by (cases a)
  have n: "n \<noteq> ''version''" and rest: "first_attribute ''version'' as = None"
    using Cons.prems by (auto simp: first_attribute_def a split: if_splits)
  obtain h1 where h1: "root_check n x h = Inr h1"
    and "header_get h1 ''version'' = header_get h ''version''"
    using n by (cases "n = ''generator''") (simp_all add: root_check_simp header_get_set_other)
  then show ?case
    using Cons.IH [OF rest, of h1] by (simp add: a)
qed


lemma characters_XMLParser: "characters chars (XMLParser rt) = XMLParser rt"
  by (simp add: characters_def XMLParser_def)

lemma expat_parse_character_data:
  "list_all is_character_data chars \<Longrightarrow>
   expat_parse env (chars @ evs) (XMLParser rt) = expat_parse env evs (XMLParser rt)"
proof (induction chars)
  case Nil
  show ?case by simp
next
  case (Cons ev chars)
  then obtain c where "ev = CharacterData c"
    by (cases ev) (simp_all add: is_character_data_def)
  then show ?case
    using Cons by (simp add: callback_def characters_XMLParser)
qed

lemma run_loop_character_data:
  "list_all (list_all is_character_data) before \<Longrightarrow>
   run_loop env (before @ input) (XMLParser rt) = run_loop env input (XMLParser rt)"
proof (induction before)
  case Nil
  show ?case by simp
next
  case (Cons chunk before)
  have "expat_parse env chunk (XMLParser rt) = Inr (XMLParser rt)"
    using Cons.prems expat_parse_character_data [of chunk env "[]" rt] by simp
  moreover have "\<not> header_is_done (XMLParser rt)"
    by (simp add: header_is_done_def XMLParser_def)
  ultimately show ?case
    using Cons by simp
qed

lemma run_root_error:
  assumes "list_all (list_all is_character_data) before" and "list_all is_character_data chars"
    and "start_element env element as (XMLParser rt) = Inl e"
  shows "run env (before @ (chars @ StartElement element as # evs) # input) (XMLParser rt) =
     Inl (e, [])"
proof -
  have "expat_parse env (chars @ StartElement element as # evs) (XMLParser rt) = Inl (e, [])"
    using assms(3)
    by (simp add: expat_parse_character_data [OF assms(2)] callback_def)
      (simp add: XMLParser_def)
  then show ?thesis
    by (simp add: run_def run_loop_character_data [OF assms(1)])
qed

text \<open>
  C2 (amended). Let the start of the root element be the first callback other than character
  data (no entity declaration and no tokenizer error comes before it, in whatever chunks
  the input arrives).
  \<^item> If the root element is \<^verbatim>\<open>osm\<close> or \<^verbatim>\<open>osmChange\<close> and has a \<^verbatim>\<open>version\<close>
    attribute that is not \<^verbatim>\<open>0.6\<close> (the empty string included), \<^verbatim>\<open>run\<close> ends with
    the \<^verbatim>\<open>format_version_error\<close> that carries this version.
  \<^item> If the root element is \<^verbatim>\<open>osm\<close> or \<^verbatim>\<open>osmChange\<close> and has no version attribute,
    \<^verbatim>\<open>run\<close> ends with the \<^verbatim>\<open>format_version_error\<close> with the empty version.
  \<^item> If the root element has any other name, \<^verbatim>\<open>run\<close> ends with the \<^verbatim>\<open>xml_error\<close>
    for an unknown top-level element, whatever its attributes are.

  In all three cases the output queue is empty.
\<close>

theorem version_gate:
  assumes "list_all (list_all is_character_data) before" and "list_all is_character_data chars"
  shows "(\<forall>v. (element = ''osm'' \<or> element = ''osmChange'') \<and>
              first_attribute ''version'' as = Some v \<and> v \<noteq> ''0.6'' \<longrightarrow>
            run env (before @ (chars @ StartElement element as # evs) # input) (XMLParser rt) =
              Inl (format_version_error (''Can not read file with version '' @ v) v, [])) \<and>
         ((element = ''osm'' \<or> element = ''osmChange'') \<and>
          first_attribute ''version'' as = None \<longrightarrow>
            run env (before @ (chars @ StartElement element as # evs) # input) (XMLParser rt) =
              Inl (format_version_error
                ''Can not read file without version (missing version attribute on osm element).'' [],
                [])) \<and>
         (element \<noteq> ''osm'' \<and> element \<noteq> ''osmChange'' \<longrightarrow>
            run env (before @ (chars @ StartElement element as # evs) # input) (XMLParser rt) =
              Inl (xml_error (''Unknown top-level element: '' @ element), []))"
proof (intro conjI allI impI)
  fix v
  assume v: "(element = ''osm'' \<or> element = ''osmChange'') \<and>
    first_attribute ''version'' as = Some v \<and> v \<noteq> ''0.6''"
  have "start_element env element as (XMLParser rt) =
      Inl (format_version_error (''Can not read file with version '' @ v) v)"
    using v
    by (auto simp: start_element_def start_element_root_def XMLParser_def Let_def
        root_scan_bad_version)
  then show "run env (before @ (chars @ StartElement element as # evs) # input) (XMLParser rt) =
      Inl (format_version_error (''Can not read file with version '' @ v) v, [])"
    by (rule run_root_error [OF assms])
next
  assume none: "(element = ''osm'' \<or> element = ''osmChange'') \<and>
    first_attribute ''version'' as = None"
  have get: "header_get Header ''version'' = []"
    "header_get (set_has_multiple_object_versions True Header) ''version'' = []"
    by (simp_all add: header_get_def Header_def set_has_multiple_object_versions_def)
  have "start_element env element as (XMLParser rt) =
      Inl (format_version_error
        ''Can not read file without version (missing version attribute on osm element).'' [])"
    using none root_scan_no_version [of as Header]
      root_scan_no_version [of as "set_has_multiple_object_versions True Header"]
    by (auto simp: start_element_def start_element_root_def XMLParser_def Let_def get)
  then show "run env (before @ (chars @ StartElement element as # evs) # input) (XMLParser rt) =
      Inl (format_version_error
        ''Can not read file without version (missing version attribute on osm element).'' [], [])"
    by (rule run_root_error [OF assms])
next
  assume "element \<noteq> ''osm'' \<and> element \<noteq> ''osmChange''"
  then have "start_element env element as (XMLParser rt) =
      Inl (xml_error (''Unknown top-level element: '' @ element))"
    by (simp add: start_element_def start_element_root_def XMLParser_def)
  then show "run env (before @ (chars @ StartElement element as # evs) # input) (XMLParser rt) =
      Inl (xml_error (''Unknown top-level element: '' @ element), [])"
    by (rule run_root_error [OF assms])
qed

text \<open>
  The theorem for \<^verbatim>\<open><osm version="0.5"></osm>\<close>, for
  \<^verbatim>\<open><osm generator="x"></osm>\<close> arriving after a chunk of character data, and for
  \<^verbatim>\<open><gpx version="0.6"></gpx>\<close>.
\<close>

theorem version_gate_witness:
  "list_all (list_all is_character_data) [] \<and> list_all is_character_data [] \<and>
   first_attribute ''version'' [(''version'', ''0.5'')] = Some ''0.5'' \<and> ''0.5'' \<noteq> ''0.6'' \<and>
   run sample_env [[StartElement ''osm'' [(''version'', ''0.5'')], EndElement ''osm'']]
       (XMLParser {item_type_node}) =
     Inl (format_version_error ''Can not read file with version 0.5'' ''0.5'', []) \<and>
   list_all (list_all is_character_data) [[CharacterData '' '']] \<and>
   first_attribute ''version'' [(''generator'', ''x'')] = None \<and>
   run sample_env [[CharacterData '' ''],
         [StartElement ''osm'' [(''generator'', ''x'')], EndElement ''osm'']]
       (XMLParser {item_type_node}) =
     Inl (format_version_error
       ''Can not read file without version (missing version attribute on osm element).'' [], []) \<and>
   run sample_env [[StartElement ''gpx'' [(''version'', ''0.6'')], EndElement ''gpx'']]
       (XMLParser {item_type_node}) =
     Inl (xml_error ''Unknown top-level element: gpx'', [])"
  using version_gate [of "[]" "[]" "''osm''" "[(''version'', ''0.5'')]" sample_env
      "[EndElement ''osm'']" "[]" "{item_type_node}"]
    version_gate [of "[[CharacterData '' '']]" "[]" "''osm''" "[(''generator'', ''x'')]" sample_env
      "[EndElement ''osm'']" "[]" "{item_type_node}"]
    version_gate [of "[]" "[]" "''gpx''" "[(''version'', ''0.6'')]" sample_env
      "[EndElement ''gpx'']" "[]" "{item_type_node}"]
  by (simp add: first_attribute_def is_character_data_def)

text \<open>
  A root element that is neither \<^verbatim>\<open>osm\<close> nor \<^verbatim>\<open>osmChange\<close> and carries a version
  other than \<^verbatim>\<open>0.6\<close>, \<^verbatim>\<open><gpx version="1.1"></gpx>\<close>: the parse ends with the
  \<^verbatim>\<open>xml_error\<close> for an unknown top-level element, not with a
  \<^verbatim>\<open>format_version_error\<close>.
\<close>

theorem version_gate_other_root:
  "run sample_env [[StartElement ''gpx'' [(''version'', ''1.1'')], EndElement ''gpx'']]
       (XMLParser {item_type_node}) =
     Inl (xml_error ''Unknown top-level element: gpx'', [])"
  by (simp add: eval_defs)

subsection \<open>Ignored entities\<close>

text \<open>
  C3 (amended). In an IGNORED context every \<^verbatim>\<open>start_element\<close> leaves the whole parser
  state (the buffer included) as it is, and so does every \<^verbatim>\<open>end_element\<close> whose element
  name is not the name of the ignored entity; an \<^verbatim>\<open>end_element\<close> with the name of the
  ignored entity changes the context to TOP and nothing else. The parser does not count
  nesting: this holds for the first such closing tag, whichever element it closes.
\<close>

theorem ignored_state:
  assumes "m_context s \<in> {context_ignored_node, context_ignored_way, context_ignored_relation,
     context_ignored_changeset}"
  shows "start_element env element as s = Inr s \<and>
         end_element env element s =
           Inr (if element = ignored_element (m_context s) then s\<lparr>m_context := context_top\<rparr>
                else s)"
proof -
  consider "m_context s = context_ignored_node" | "m_context s = context_ignored_way"
    | "m_context s = context_ignored_relation" | "m_context s = context_ignored_changeset"
    using assms by auto
  then show ?thesis
    by cases (simp_all add: start_element_def end_element_def ignored_element_def)
qed

text \<open>The theorem for an ignored way: a nested \<^verbatim>\<open>nd\<close> opens and closes, then the way closes.\<close>

theorem ignored_state_witness:
  "m_context ((XMLParser {})\<lparr>m_context := context_ignored_way\<rparr>)
     \<in> {context_ignored_node, context_ignored_way, context_ignored_relation,
        context_ignored_changeset} \<and>
   start_element sample_env ''nd'' [(''ref'', ''1'')]
       ((XMLParser {})\<lparr>m_context := context_ignored_way\<rparr>) =
     Inr ((XMLParser {})\<lparr>m_context := context_ignored_way\<rparr>) \<and>
   end_element sample_env ''nd'' ((XMLParser {})\<lparr>m_context := context_ignored_way\<rparr>) =
     Inr ((XMLParser {})\<lparr>m_context := context_ignored_way\<rparr>) \<and>
   end_element sample_env ''way'' ((XMLParser {})\<lparr>m_context := context_ignored_way\<rparr>) =
     Inr ((XMLParser {})\<lparr>m_context := context_top\<rparr>)"
  using ignored_state [of "(XMLParser {})\<lparr>m_context := context_ignored_way\<rparr>" sample_env
      "''nd''" "[(''ref'', ''1'')]"]
    ignored_state [of "(XMLParser {})\<lparr>m_context := context_ignored_way\<rparr>" sample_env
      "''way''" "[]"]
  by (simp add: ignored_element_def)

text \<open>
  Nodes are not read and a \<^verbatim>\<open>node\<close> element contains another \<^verbatim>\<open>node\<close> element,
  \<^verbatim>\<open><osm version="0.6"><node><node></node>\<close>: after the start of the inner element the
  context is IGNORED\_NODE, and the end of the inner element leaves it for TOP although the
  ignored entity is still open.
\<close>

theorem ignored_state_left_by_nested_element:
  "context_after (expat_parse sample_env
      [StartElement ''osm'' [(''version'', ''0.6'')], StartElement ''node'' [],
       StartElement ''node'' []] (XMLParser {item_type_way})) = Some context_ignored_node \<and>
   context_after (expat_parse sample_env
      [StartElement ''osm'' [(''version'', ''0.6'')], StartElement ''node'' [],
       StartElement ''node'' [], EndElement ''node''] (XMLParser {item_type_way})) =
     Some context_top"
  by (simp add: context_after_def eval_defs)

subsection \<open>Comment texts\<close>

lemma end_text_keeps_comment_text:
  assumes "m_context s = context_comment_text" and "m_changeset_discussion_builder s = Some d"
  shows "end_element env ''text'' s =
     Inr (s\<lparr>m_context := context_comment,
            m_changeset_discussion_builder :=
              Some (d\<lparr>sb_list := sb_list d @ [comment_text (m_comment_text s)]\<rparr>)\<rparr>)"
  using assms by (simp add: end_element_def add_comment_text_def)

text \<open>
  C4. What the parser does on two comments with no character data between the elements
  (\<open>two_comments\<close>): the text written for the second comment is \<^verbatim>\<open>hiyo\<close>, the text of
  the first comment followed by its own. The accumulator \<^verbatim>\<open>m_comment_text\<close> is not
  cleared when \<^verbatim>\<open>text\<close> closes; only a \<^verbatim>\<open>characters\<close> callback outside a text
  element clears it.
\<close>

theorem second_comment_text_starts_with_first:
  "written_subitems (expat_parse sample_env two_comments (XMLParser {item_type_changeset})) =
     [[ChangesetDiscussion
         [comment_header 0 7 ''a'', comment_text ''hi'',
          comment_header 0 8 ''b'', comment_text ''hiyo'']]]"
  by (simp add: written_subitems_def item_subitems_def two_comments_def eval_defs)

subsection \<open>The invariant of the builders\<close>

lemmas builders_ok_defs = builders_ok_def entity_ok_def entity_of_def builders_free_def current_items_def
  live_sublists_def sublist_parents_def builder_get_def

lemmas reset_defs = reset_tl_builder_def reset_wnl_builder_def reset_rml_builder_def
  reset_changeset_discussion_builder_def reset_node_builder_def reset_way_builder_def
  reset_relation_builder_def reset_changeset_builder_def release_sublist_def

lemma ok_way:
  assumes "m_context s = context_way" "builders_ok s" "start_element env element as s = Inr s'"
  shows "builders_ok s'"
  using assms
  by (auto simp: start_element_def start_element_way_def get_tag_def Let_def builders_ok_defs reset_defs
      split: option.splits sum.splits if_splits prod.splits builder_ref.splits)

lemma ok_root:
  assumes "m_context s = context_root" "builders_ok s" "start_element env element as s = Inr s'"
  shows "builders_ok s'"
  using assms
  by (auto simp: start_element_def start_element_root_def Let_def builders_ok_defs
      split: option.splits sum.splits if_splits)

lemma builders_mark_header_as_done [simp]:
  "m_node_builder (mark_header_as_done s) = m_node_builder s"
  "m_way_builder (mark_header_as_done s) = m_way_builder s"
  "m_relation_builder (mark_header_as_done s) = m_relation_builder s"
  "m_changeset_builder (mark_header_as_done s) = m_changeset_builder s"
  "m_tl_builder (mark_header_as_done s) = m_tl_builder s"
  "m_wnl_builder (mark_header_as_done s) = m_wnl_builder s"
  "m_rml_builder (mark_header_as_done s) = m_rml_builder s"
  "m_changeset_discussion_builder (mark_header_as_done s) = m_changeset_discussion_builder s"
  "m_context (mark_header_as_done s) = m_context s"
  "m_last_context (mark_header_as_done s) = m_last_context s"
  "m_buffer (mark_header_as_done s) = m_buffer s"
  "output_queue (mark_header_as_done s) = output_queue s"
  "read_types (mark_header_as_done s) = read_types s"
  "m_in_delete_section (mark_header_as_done s) = m_in_delete_section s"
  "m_comment_text (mark_header_as_done s) = m_comment_text s"
  by (simp_all add: mark_header_as_done_def set_header_value_def)

lemma ok_top:
  assumes "m_context s = context_top" "builders_ok s" "start_element env element as s = Inr s'"
  shows "builders_ok s'"
  using assms
  by (auto simp: start_element_def start_element_top_def Let_def builders_ok_defs reset_defs
      split: option.splits sum.splits if_splits prod.splits)

lemma ok_node:
  assumes "m_context s = context_node" "builders_ok s" "start_element env element as s = Inr s'"
  shows "builders_ok s'"
  using assms
  by (auto simp: start_element_def start_element_node_def get_tag_def Let_def builders_ok_defs reset_defs
      split: option.splits sum.splits if_splits prod.splits builder_ref.splits)

lemma ok_relation:
  assumes "m_context s = context_relation" "builders_ok s" "start_element env element as s = Inr s'"
  shows "builders_ok s'"
  using assms
  by (auto simp: start_element_def start_element_relation_def get_tag_def Let_def builders_ok_defs reset_defs
      split: option.splits sum.splits if_splits prod.splits builder_ref.splits)

lemma ok_changeset:
  assumes "m_context s = context_changeset" "builders_ok s" "start_element env element as s = Inr s'"
  shows "builders_ok s'"
  using assms
  by (auto simp: start_element_def start_element_changeset_def get_tag_def Let_def builders_ok_defs reset_defs
      split: option.splits sum.splits if_splits prod.splits builder_ref.splits)

lemma ok_discussion:
  assumes "m_context s = context_discussion" "builders_ok s" "start_element env element as s = Inr s'"
  shows "builders_ok s'"
  using assms
  by (auto simp: start_element_def start_element_discussion_def Let_def builders_ok_defs
      split: option.splits sum.splits if_splits prod.splits builder_ref.splits)

lemma builders_flush_buffer [simp]:
  "m_node_builder (flush_buffer s) = m_node_builder s"
  "m_way_builder (flush_buffer s) = m_way_builder s"
  "m_relation_builder (flush_buffer s) = m_relation_builder s"
  "m_changeset_builder (flush_buffer s) = m_changeset_builder s"
  "m_tl_builder (flush_buffer s) = m_tl_builder s"
  "m_wnl_builder (flush_buffer s) = m_wnl_builder s"
  "m_rml_builder (flush_buffer s) = m_rml_builder s"
  "m_changeset_discussion_builder (flush_buffer s) = m_changeset_discussion_builder s"
  "m_context (flush_buffer s) = m_context s"
  "m_last_context (flush_buffer s) = m_last_context s"
  "read_types (flush_buffer s) = read_types s"
  "m_in_delete_section (flush_buffer s) = m_in_delete_section s"
  "m_comment_text (flush_buffer s) = m_comment_text s"
  by (simp_all add: flush_buffer_def send_to_output_queue_def)

lemma entity_ok_cong:
  assumes "m_node_builder s' = m_node_builder s" "m_way_builder s' = m_way_builder s"
    "m_relation_builder s' = m_relation_builder s" "m_changeset_builder s' = m_changeset_builder s"
    "m_tl_builder s' = m_tl_builder s" "m_wnl_builder s' = m_wnl_builder s"
    "m_rml_builder s' = m_rml_builder s"
    "m_changeset_discussion_builder s' = m_changeset_discussion_builder s"
  shows "entity_ok r s' = entity_ok r s" and "builders_free s' = builders_free s"
proof -
  show "entity_ok r s' = entity_ok r s"
    by (cases r) (simp_all add: assms entity_ok_def current_items_def sublist_parents_def
        builder_get_def)
  show "builders_free s' = builders_free s"
    by (simp add: assms builders_free_def current_items_def live_sublists_def)
qed

lemma entity_ok_frame [simp]:
  "entity_ok r (s\<lparr>m_context := c\<rparr>) = entity_ok r s"
  "entity_ok r (s\<lparr>m_last_context := c\<rparr>) = entity_ok r s"
  "entity_ok r (s\<lparr>m_comment_text := t\<rparr>) = entity_ok r s"
  "entity_ok r (s\<lparr>m_in_delete_section := d\<rparr>) = entity_ok r s"
  "entity_ok r (s\<lparr>m_header := h\<rparr>) = entity_ok r s"
  "entity_ok r (s\<lparr>m_buffer := b\<rparr>) = entity_ok r s"
  "entity_ok r (mark_header_as_done s) = entity_ok r s"
  "entity_ok r (flush_buffer s) = entity_ok r s"
  by (rule entity_ok_cong; simp)+

lemma builders_free_frame [simp]:
  "builders_free (s\<lparr>m_context := c\<rparr>) = builders_free s"
  "builders_free (s\<lparr>m_last_context := c\<rparr>) = builders_free s"
  "builders_free (s\<lparr>m_comment_text := t\<rparr>) = builders_free s"
  "builders_free (s\<lparr>m_in_delete_section := d\<rparr>) = builders_free s"
  "builders_free (s\<lparr>m_header := h\<rparr>) = builders_free s"
  "builders_free (s\<lparr>m_buffer := b\<rparr>) = builders_free s"
  "builders_free (mark_header_as_done s) = builders_free s"
  "builders_free (flush_buffer s) = builders_free s"
  by (rule entity_ok_cong; simp)+

lemma ok_start_element:
  assumes "builders_ok s" "start_element env element as s = Inr s'"
  shows "builders_ok s'"
proof (cases "m_context s")
  case context_root then show ?thesis by (rule ok_root [OF _ assms])
next
  case context_top then show ?thesis by (rule ok_top [OF _ assms])
next
  case context_node then show ?thesis by (rule ok_node [OF _ assms])
next
  case context_way then show ?thesis by (rule ok_way [OF _ assms])
next
  case context_relation then show ?thesis by (rule ok_relation [OF _ assms])
next
  case context_changeset then show ?thesis by (rule ok_changeset [OF _ assms])
next
  case context_discussion then show ?thesis by (rule ok_discussion [OF _ assms])
next
  case context_comment
  then show ?thesis using assms
    by (cases "element = ''text''") (auto simp: start_element_def builders_ok_def entity_of_def)
next
  case context_comment_text
  then show ?thesis using assms by (simp add: start_element_def)
next
  case context_ignored_node
  then show ?thesis using assms by (simp add: start_element_def)
next
  case context_ignored_way
  then show ?thesis using assms by (simp add: start_element_def)
next
  case context_ignored_relation
  then show ?thesis using assms by (simp add: start_element_def)
next
  case context_ignored_changeset
  then show ?thesis using assms by (simp add: start_element_def)
next
  case context_in_object
  then show ?thesis using assms by (simp add: start_element_def)
qed

lemma entity_ok_node:
  "entity_ok node_builder s \<longleftrightarrow>
     m_node_builder s \<noteq> None \<and> m_way_builder s = None \<and> m_relation_builder s = None \<and>
     m_changeset_builder s = None \<and> m_wnl_builder s = None \<and> m_rml_builder s = None \<and>
     m_changeset_discussion_builder s = None \<and> parent_is node_builder (m_tl_builder s)"
  by (cases "m_node_builder s"; cases "m_way_builder s"; cases "m_relation_builder s";
      cases "m_changeset_builder s"; cases "m_tl_builder s"; cases "m_wnl_builder s";
      cases "m_rml_builder s"; cases "m_changeset_discussion_builder s";
      simp add: entity_ok_def current_items_def sublist_parents_def builder_get_def parent_is_def)

lemma entity_ok_way:
  "entity_ok way_builder s \<longleftrightarrow>
     m_node_builder s = None \<and> m_way_builder s \<noteq> None \<and> m_relation_builder s = None \<and>
     m_changeset_builder s = None \<and> m_rml_builder s = None \<and>
     m_changeset_discussion_builder s = None \<and>
     (m_tl_builder s = None \<or> m_wnl_builder s = None) \<and>
     parent_is way_builder (m_tl_builder s) \<and> parent_is way_builder (m_wnl_builder s)"
  by (cases "m_node_builder s"; cases "m_way_builder s"; cases "m_relation_builder s";
      cases "m_changeset_builder s"; cases "m_tl_builder s"; cases "m_wnl_builder s";
      cases "m_rml_builder s"; cases "m_changeset_discussion_builder s";
      simp add: entity_ok_def current_items_def sublist_parents_def builder_get_def parent_is_def)

lemma entity_ok_relation:
  "entity_ok relation_builder s \<longleftrightarrow>
     m_node_builder s = None \<and> m_way_builder s = None \<and> m_relation_builder s \<noteq> None \<and>
     m_changeset_builder s = None \<and> m_wnl_builder s = None \<and>
     m_changeset_discussion_builder s = None \<and>
     (m_tl_builder s = None \<or> m_rml_builder s = None) \<and>
     parent_is relation_builder (m_tl_builder s) \<and> parent_is relation_builder (m_rml_builder s)"
  by (cases "m_node_builder s"; cases "m_way_builder s"; cases "m_relation_builder s";
      cases "m_changeset_builder s"; cases "m_tl_builder s"; cases "m_wnl_builder s";
      cases "m_rml_builder s"; cases "m_changeset_discussion_builder s";
      simp add: entity_ok_def current_items_def sublist_parents_def builder_get_def parent_is_def)

lemma entity_ok_changeset:
  "entity_ok changeset_builder s \<longleftrightarrow>
     m_node_builder s = None \<and> m_way_builder s = None \<and> m_relation_builder s = None \<and>
     m_changeset_builder s \<noteq> None \<and> m_wnl_builder s = None \<and> m_rml_builder s = None \<and>
     (m_tl_builder s = None \<or> m_changeset_discussion_builder s = None) \<and>
     parent_is changeset_builder (m_tl_builder s) \<and>
     parent_is changeset_builder (m_changeset_discussion_builder s)"
  by (cases "m_node_builder s"; cases "m_way_builder s"; cases "m_relation_builder s";
      cases "m_changeset_builder s"; cases "m_tl_builder s"; cases "m_wnl_builder s";
      cases "m_rml_builder s"; cases "m_changeset_discussion_builder s";
      simp add: entity_ok_def current_items_def sublist_parents_def builder_get_def parent_is_def)

lemma builders_free_iff:
  "builders_free s \<longleftrightarrow>
     m_node_builder s = None \<and> m_way_builder s = None \<and> m_relation_builder s = None \<and>
     m_changeset_builder s = None \<and> m_tl_builder s = None \<and> m_wnl_builder s = None \<and>
     m_rml_builder s = None \<and> m_changeset_discussion_builder s = None"
  by (auto simp: builders_free_def current_items_def live_sublists_def split: option.splits)

lemma end_node:
  assumes "m_context s = context_node" "entity_ok node_builder s"
  shows "\<exists>b. m_node_builder s = Some b \<and>
     end_element env ''node'' s =
       Inr (flush_buffer (closed_state
         (object_item (b\<lparr>b_subitems := b_subitems b @ live_sublists s\<rparr>)) env s))"
proof -
  obtain b where b: "m_node_builder s = Some b" using assms by (auto simp: entity_ok_node)
  show ?thesis
    using assms b
    apply (cases "m_tl_builder s")
     apply (simp_all add: entity_ok_node parent_is_def end_element_def reset_tl_builder_def
        reset_node_builder_def release_sublist_def closed_state_def live_sublists_def
        add_subitem_def)
     apply (rule arg_cong [where f = flush_buffer], rule xml_parser.equality; simp)
    apply (rule arg_cong [where f = flush_buffer], rule xml_parser.equality; simp)
    done
qed

lemma end_way:
  assumes "m_context s = context_way" "entity_ok way_builder s"
  shows "\<exists>b. m_way_builder s = Some b \<and>
     end_element env ''way'' s =
       Inr (flush_buffer (closed_state
         (object_item (b\<lparr>b_subitems := b_subitems b @ live_sublists s\<rparr>)) env s))"
proof -
  obtain b where b: "m_way_builder s = Some b" using assms by (auto simp: entity_ok_way)
  show ?thesis
    using assms b
    apply (cases "m_tl_builder s", cases "m_wnl_builder s")
      apply (simp_all add: entity_ok_way parent_is_def end_element_def reset_tl_builder_def
        reset_wnl_builder_def reset_way_builder_def release_sublist_def closed_state_def
        live_sublists_def add_subitem_def)
     apply (rule arg_cong [where f = flush_buffer], rule xml_parser.equality; simp)+
    done
qed

lemma end_relation:
  assumes "m_context s = context_relation" "entity_ok relation_builder s"
  shows "\<exists>b. m_relation_builder s = Some b \<and>
     end_element env ''relation'' s =
       Inr (flush_buffer (closed_state
         (object_item (b\<lparr>b_subitems := b_subitems b @ live_sublists s\<rparr>)) env s))"
proof -
  obtain b where b: "m_relation_builder s = Some b"
    using assms by (auto simp: entity_ok_relation)
  show ?thesis
    using assms b
    apply (cases "m_tl_builder s", cases "m_rml_builder s")
      apply (simp_all add: entity_ok_relation parent_is_def end_element_def reset_tl_builder_def
        reset_rml_builder_def reset_relation_builder_def release_sublist_def closed_state_def
        live_sublists_def add_subitem_def)
     apply (rule arg_cong [where f = flush_buffer], rule xml_parser.equality; simp)+
    done
qed

lemma end_changeset:
  assumes "m_context s = context_changeset" "entity_ok changeset_builder s"
  shows "\<exists>b. m_changeset_builder s = Some b \<and>
     end_element env ''changeset'' s =
       Inr (flush_buffer (closed_state
         (changeset_item (b\<lparr>b_subitems := b_subitems b @ live_sublists s\<rparr>)) env s))"
proof -
  obtain b where b: "m_changeset_builder s = Some b"
    using assms by (auto simp: entity_ok_changeset)
  show ?thesis
    using assms b
    apply (cases "m_tl_builder s", cases "m_changeset_discussion_builder s")
      apply (simp_all add: entity_ok_changeset parent_is_def end_element_def reset_tl_builder_def
        reset_changeset_discussion_builder_def reset_changeset_builder_def release_sublist_def
        closed_state_def live_sublists_def add_subitem_def)
     apply (rule arg_cong [where f = flush_buffer], rule xml_parser.equality; simp)+
    done
qed

lemma builders_free_closed_state [simp]: "builders_free (closed_state i env s)"
  by (simp add: builders_free_iff closed_state_def)

lemma m_context_closed_state [simp]: "m_context (closed_state i env s) = context_top"
  by (simp add: closed_state_def)

lemma ok_closed: "builders_ok (flush_buffer (closed_state i env s))"
  by (simp add: builders_ok_def entity_of_def)

lemma ok_end_element:
  assumes "builders_ok s" "end_element env element s = Inr s'"
  shows "builders_ok s'"
proof (cases "m_context s")
  case context_root
  then show ?thesis using assms by (simp add: end_element_def)
next
  case context_top
  then show ?thesis using assms
    by (auto simp: end_element_def builders_ok_def entity_of_def split: if_splits)
next
  case context_node
  then have "element = ''node''" and "entity_ok node_builder s"
    using assms by (auto simp: end_element_def builders_ok_def entity_of_def split: if_splits)
  then show ?thesis
    using end_node [OF context_node, of env] assms(2) by (auto simp: ok_closed)
next
  case context_way
  then have "element = ''way''" and "entity_ok way_builder s"
    using assms by (auto simp: end_element_def builders_ok_def entity_of_def split: if_splits)
  then show ?thesis
    using end_way [OF context_way, of env] assms(2) by (auto simp: ok_closed)
next
  case context_relation
  then have "element = ''relation''" and "entity_ok relation_builder s"
    using assms by (auto simp: end_element_def builders_ok_def entity_of_def split: if_splits)
  then show ?thesis
    using end_relation [OF context_relation, of env] assms(2)
    by (auto simp: ok_closed)
next
  case context_changeset
  then have "element = ''changeset''" and "entity_ok changeset_builder s"
    using assms by (auto simp: end_element_def builders_ok_def entity_of_def split: if_splits)
  then show ?thesis
    using end_changeset [OF context_changeset, of env] assms(2)
    by (auto simp: ok_closed)
next
  case context_discussion
  then show ?thesis using assms
    by (auto simp: end_element_def builders_ok_def entity_of_def split: if_splits)
next
  case context_comment
  then show ?thesis using assms
    by (auto simp: end_element_def builders_ok_def entity_of_def split: if_splits)
next
  case context_comment_text
  then show ?thesis using assms
    by (auto simp: end_element_def builders_ok_def entity_of_def Let_def entity_ok_changeset parent_is_def
        split: if_splits option.splits)
next
  case context_ignored_node
  then show ?thesis using assms
    by (auto simp: end_element_def builders_ok_def entity_of_def split: if_splits)
next
  case context_ignored_way
  then show ?thesis using assms
    by (auto simp: end_element_def builders_ok_def entity_of_def split: if_splits)
next
  case context_ignored_relation
  then show ?thesis using assms
    by (auto simp: end_element_def builders_ok_def entity_of_def split: if_splits)
next
  case context_ignored_changeset
  then show ?thesis using assms
    by (auto simp: end_element_def builders_ok_def entity_of_def split: if_splits)
next
  case context_in_object
  then show ?thesis using assms
    by (cases "m_last_context s") (auto simp: end_element_def builders_ok_def entity_of_def)
qed

lemma ok_characters: "builders_ok s \<Longrightarrow> builders_ok (characters text s)"
  by (cases "m_context s"; cases "m_last_context s") (simp_all add: characters_def builders_ok_def entity_of_def)

lemma ok_callback:
  assumes "builders_ok s" "callback env ev s = Inr s'"
  shows "builders_ok s'"
proof (cases ev)
  case (StartElement element atts)
  then show ?thesis using assms ok_start_element by (simp add: callback_def)
next
  case (EndElement element)
  then show ?thesis using assms ok_end_element by (simp add: callback_def)
next
  case (CharacterData chars)
  then show ?thesis using assms ok_characters by (auto simp: callback_def)
next
  case EntityDecl
  then show ?thesis using assms by (simp add: callback_def)
next
  case (XML_STATUS_ERROR msg)
  then show ?thesis using assms by (simp add: callback_def)
qed

lemma ok_XMLParser: "builders_ok (XMLParser rt)"
  by (simp add: XMLParser_def builders_ok_def entity_of_def builders_free_iff)

lemma expat_parse_invariant:
  assumes step: "\<And>ev s s'. I s \<Longrightarrow> callback env ev s = Inr s' \<Longrightarrow> I s'"
    and "I s" and "expat_parse env evs s = Inr s'"
  shows "I s'"
  using assms(2,3)
proof (induction evs arbitrary: s)
  case Nil
  then show ?case by simp
next
  case (Cons ev evs)
  then show ?case using step by (auto split: sum.splits)
qed

lemma ok_reachable: "expat_parse env evs (XMLParser rt) = Inr s \<Longrightarrow> builders_ok s"
  using expat_parse_invariant [of builders_ok env "XMLParser rt" evs s] ok_callback ok_XMLParser
  by blast

subsection \<open>The flush policy\<close>

lemma capacity_buffer_add_item [simp]: "capacity (buffer_add_item env i b) = capacity b"
  by (simp add: buffer_add_item_def)

lemma capacity_commit [simp]: "capacity (commit b) = capacity b"
  by (simp add: commit_def)

lemma capacity_release_sublist [simp]:
  "capacity (m_buffer (release_sublist env p sub s)) = capacity (m_buffer s)"
  by (simp add: release_sublist_def split: option.splits builder_ref.splits)

lemma capacity_reset [simp]:
  "capacity (m_buffer (reset_tl_builder env s)) = capacity (m_buffer s)"
  "capacity (m_buffer (reset_wnl_builder env s)) = capacity (m_buffer s)"
  "capacity (m_buffer (reset_rml_builder env s)) = capacity (m_buffer s)"
  "capacity (m_buffer (reset_changeset_discussion_builder env s)) = capacity (m_buffer s)"
  "capacity (m_buffer (reset_node_builder env s)) = capacity (m_buffer s)"
  "capacity (m_buffer (reset_way_builder env s)) = capacity (m_buffer s)"
  "capacity (m_buffer (reset_relation_builder env s)) = capacity (m_buffer s)"
  "capacity (m_buffer (reset_changeset_builder env s)) = capacity (m_buffer s)"
  by (simp_all add: reset_tl_builder_def reset_wnl_builder_def reset_rml_builder_def
      reset_changeset_discussion_builder_def reset_node_builder_def reset_way_builder_def
      reset_relation_builder_def reset_changeset_builder_def split: option.splits)

lemma m_buffer_get_tag: "get_tag p as s = Inr s' \<Longrightarrow> m_buffer s' = m_buffer s"
  by (auto simp: get_tag_def Let_def split: sum.splits prod.splits option.splits if_splits)

lemma capacity_flush_buffer:
  "capacity (m_buffer s) = buffer_size \<Longrightarrow> capacity (m_buffer (flush_buffer s)) = buffer_size"
  by (simp add: flush_buffer_def Buffer_def send_to_output_queue_def)

lemma capacity_start_element:
  assumes "start_element env element as s = Inr s'"
  shows "capacity (m_buffer s') = capacity (m_buffer s)"
proof (cases "m_context s")
  case context_root
  then show ?thesis using assms
    by (auto simp: start_element_def start_element_root_def Let_def split: sum.splits if_splits)
next
  case context_top
  then show ?thesis using assms
    by (auto simp: start_element_def start_element_top_def Let_def
        split: sum.splits if_splits prod.splits)
next
  case context_node
  then show ?thesis using assms
    by (auto simp: start_element_def start_element_node_def Let_def
        dest!: m_buffer_get_tag split: if_splits)
next
  case context_way
  then show ?thesis using assms
    by (auto simp: start_element_def start_element_way_def Let_def
        dest!: m_buffer_get_tag split: sum.splits if_splits option.splits)
next
  case context_relation
  then show ?thesis using assms
    by (auto simp: start_element_def start_element_relation_def Let_def
        dest!: m_buffer_get_tag split: sum.splits if_splits option.splits prod.splits)
next
  case context_changeset
  then show ?thesis using assms
    by (auto simp: start_element_def start_element_changeset_def Let_def
        dest!: m_buffer_get_tag split: sum.splits if_splits option.splits prod.splits)
next
  case context_discussion
  then show ?thesis using assms
    by (auto simp: start_element_def start_element_discussion_def Let_def
        split: sum.splits if_splits option.splits prod.splits)
qed (use assms in \<open>auto simp: start_element_def split: if_splits\<close>)

lemma capacity_end_element:
  assumes "end_element env element s = Inr s'" "capacity (m_buffer s) = buffer_size"
  shows "capacity (m_buffer s') = buffer_size"
proof (cases "m_context s")
  case context_node
  then show ?thesis using assms
    by (auto simp: end_element_def Let_def capacity_flush_buffer split: if_splits)
next
  case context_way
  then show ?thesis using assms
    by (auto simp: end_element_def Let_def capacity_flush_buffer split: if_splits)
next
  case context_relation
  then show ?thesis using assms
    by (auto simp: end_element_def Let_def capacity_flush_buffer split: if_splits)
next
  case context_changeset
  then show ?thesis using assms
    by (auto simp: end_element_def Let_def capacity_flush_buffer split: if_splits)
next
  case context_comment_text
  then show ?thesis using assms
    by (auto simp: end_element_def Let_def split: if_splits option.splits)
qed (use assms in \<open>auto simp: end_element_def split: if_splits\<close>)

lemma capacity_callback:
  assumes "capacity (m_buffer s) = buffer_size" "callback env ev s = Inr s'"
  shows "capacity (m_buffer s') = buffer_size"
proof (cases ev)
  case (StartElement element atts)
  then show ?thesis using assms capacity_start_element [of env element atts s s']
    by (simp add: callback_def)
next
  case (EndElement element)
  then show ?thesis using assms capacity_end_element [of env element s s']
    by (simp add: callback_def)
next
  case (CharacterData chars)
  then show ?thesis using assms by (auto simp: callback_def characters_def)
next
  case EntityDecl
  then show ?thesis using assms by (simp add: callback_def)
next
  case (XML_STATUS_ERROR msg)
  then show ?thesis using assms by (simp add: callback_def)
qed

lemma capacity_reachable:
  "expat_parse env evs (XMLParser rt) = Inr s \<Longrightarrow> capacity (m_buffer s) = buffer_size"
  using expat_parse_invariant [of "\<lambda>s. capacity (m_buffer s) = buffer_size" env "XMLParser rt" evs s]
    capacity_callback
  by (simp add: XMLParser_def Buffer_def)

lemma end_entity:
  assumes "builders_ok s"
    and "m_context s \<in> {context_node, context_way, context_relation, context_changeset}"
  shows "\<exists>i. end_element env (entity_element (m_context s)) s =
     Inr (flush_buffer (closed_state i env s))"
proof -
  consider "m_context s = context_node" | "m_context s = context_way"
    | "m_context s = context_relation" | "m_context s = context_changeset"
    using assms(2) by auto
  then show ?thesis
  proof cases
    case 1
    then show ?thesis using assms(1) end_node [OF 1, of env]
      by (auto simp: builders_ok_def entity_of_def entity_element_def)
  next
    case 2
    then show ?thesis using assms(1) end_way [OF 2, of env]
      by (auto simp: builders_ok_def entity_of_def entity_element_def)
  next
    case 3
    then show ?thesis using assms(1) end_relation [OF 3, of env]
      by (auto simp: builders_ok_def entity_of_def entity_element_def)
  next
    case 4
    then show ?thesis using assms(1) end_changeset [OF 4, of env]
      by (auto simp: builders_ok_def entity_of_def entity_element_def)
  qed
qed

lemma flush_closed_state:
  assumes "capacity (m_buffer s) = buffer_size" and "s' = flush_buffer (closed_state i env s)"
  shows "let b = commit (buffer_add_item env i (m_buffer s)) in
      capacity b = 2000000 \<and>
      (if 10 * committed b > 9 * capacity b
       then output_queue s' = output_queue s @ [b] \<and> m_buffer s' = Buffer (capacity b)
       else output_queue s' = output_queue s \<and> m_buffer s' = b) \<and>
      (10 * committed b > 9 * capacity b \<longleftrightarrow> committed b > 1800000)"
  using assms
  by (auto simp: Let_def flush_buffer_def closed_state_def send_to_output_queue_def buffer_size_def)

text \<open>
  C6. In every state the parser reaches inside a node, way, relation or changeset, the
  closing tag of the entity commits the entity (the buffer \<open>b\<close> below, of capacity
  2000000) and then: if the committed bytes of \<open>b\<close> strictly exceed 90 percent of its
  capacity, which is the same as exceeding 1800000, \<open>b\<close> is appended to the output queue
  and the parser continues with a fresh buffer of the same capacity; otherwise the output
  queue is unchanged and the parser keeps \<open>b\<close>. And when the loop of \<^verbatim>\<open>run\<close> ends
  in a state \<open>s1\<close>, \<^verbatim>\<open>run\<close> appends the buffer of \<open>s1\<close> to the output queue if
  its committed bytes are more than 0, and leaves the queue as it is otherwise.
\<close>

theorem flush_policy:
  assumes "expat_parse env evs (XMLParser rt) = Inr s"
  shows "(m_context s \<in> {context_node, context_way, context_relation, context_changeset} \<longrightarrow>
          (\<exists>i s'. end_element env (entity_element (m_context s)) s = Inr s' \<and>
             (let b = commit (buffer_add_item env i (m_buffer s)) in
              capacity b = 2000000 \<and>
              (if 10 * committed b > 9 * capacity b
               then output_queue s' = output_queue s @ [b] \<and> m_buffer s' = Buffer (capacity b)
               else output_queue s' = output_queue s \<and> m_buffer s' = b) \<and>
              (10 * committed b > 9 * capacity b \<longleftrightarrow> committed b > 1800000)))) \<and>
         (\<forall>input s1. run_loop env input s = Inr s1 \<longrightarrow>
            (\<exists>s2. run env input s = Inr s2 \<and>
               output_queue s2 =
                 (if committed (m_buffer s1) > 0 then output_queue s1 @ [m_buffer s1]
                  else output_queue s1)))"
proof (intro conjI impI allI)
  assume ctx: "m_context s \<in> {context_node, context_way, context_relation, context_changeset}"
  obtain i where i: "end_element env (entity_element (m_context s)) s =
      Inr (flush_buffer (closed_state i env s))"
    using end_entity [OF ok_reachable [OF assms] ctx] by blast
  show "\<exists>i s'. end_element env (entity_element (m_context s)) s = Inr s' \<and>
      (let b = commit (buffer_add_item env i (m_buffer s)) in
       capacity b = 2000000 \<and>
       (if 10 * committed b > 9 * capacity b
        then output_queue s' = output_queue s @ [b] \<and> m_buffer s' = Buffer (capacity b)
        else output_queue s' = output_queue s \<and> m_buffer s' = b) \<and>
       (10 * committed b > 9 * capacity b \<longleftrightarrow> committed b > 1800000))"
    using i flush_closed_state [OF capacity_reachable [OF assms] refl] by blast
next
  fix input s1
  assume "run_loop env input s = Inr s1"
  then show "\<exists>s2. run env input s = Inr s2 \<and>
      output_queue s2 =
        (if committed (m_buffer s1) > 0 then output_queue s1 @ [m_buffer s1]
         else output_queue s1)"
    by (simp add: run_def Let_def send_to_output_queue_def mark_header_as_done_def
        set_header_value_def)
qed

text \<open>
  The theorem at the state after \<^verbatim>\<open><osm version="0.6"><node id="1">\<close>: with items of 8
  bytes the node is committed and the buffer kept, with items of 1800001 bytes the buffer is
  pushed and replaced; and at the end of \<^verbatim>\<open>run\<close> the buffer with the committed node is
  pushed.
\<close>

theorem flush_policy_witness:
  "expat_parse sample_env osm_start (XMLParser {item_type_node}) = Inr node_open \<and>
   m_context node_open \<in> {context_node, context_way, context_relation, context_changeset} \<and>
   (\<exists>s'. end_element sample_env ''node'' node_open = Inr s' \<and>
      output_queue s' = [] \<and> committed (m_buffer s') = 8 \<and> capacity (m_buffer s') = 2000000) \<and>
   expat_parse heavy_env osm_start (XMLParser {item_type_node}) = Inr node_open \<and>
   (\<exists>s'. end_element heavy_env ''node'' node_open = Inr s' \<and>
      map committed (output_queue s') = [1800001] \<and> m_buffer s' = Buffer 2000000) \<and>
   (\<exists>s1. run_loop sample_env [[EndElement ''node'', EndElement ''osm'']] node_open = Inr s1 \<and>
      committed (m_buffer s1) = 8 \<and> output_queue s1 = [] \<and>
      (\<exists>s2. run sample_env [[EndElement ''node'', EndElement ''osm'']] node_open = Inr s2 \<and>
         output_queue s2 = [m_buffer s1]))"
  using flush_policy [of sample_env osm_start "{item_type_node}" node_open]
    flush_policy [of heavy_env osm_start "{item_type_node}" node_open]
  by (simp add: eval_defs osm_start_def node_open_def heavy_env_def entity_element_def Let_def)

subsection \<open>Visibility in the delete section\<close>

lemma set_attribute_visible:
  assumes "set_attribute env n x obj = Inr obj'"
  shows "o_visible obj' =
     (if n = ''visible'' then string_to_visible env x = Inr True else o_visible obj)"
  using assms
  by (auto simp: set_attribute_def set_visible_def split: if_splits sum.splits)

lemma init_object_check_visible:
  assumes "init_object_check env n x (l, u, obj) = Inr (l', u', obj')"
  shows "o_visible obj' =
     (if n = ''visible'' then string_to_visible env x = Inr True else o_visible obj)"
  using assms set_attribute_visible [of env n x obj obj']
  by (auto simp: init_object_check_def split: if_splits sum.splits)

lemma init_object_scan_visible:
  "check_attributes as (init_object_check env) (l, u, obj) = Inr (l', u', obj') \<Longrightarrow>
   o_visible obj' =
     (case visible_attribute env as of None \<Rightarrow> o_visible obj | Some b \<Rightarrow> b)"
proof (induction as arbitrary: l u obj)
  case Nil
  then show ?case by (simp add: visible_attribute_def)
next
  case (Cons a as)
  obtain n x where a: "a = (n, x)" by (cases a)
  from Cons.prems obtain l1 u1 obj1 where
    step: "init_object_check env n x (l, u, obj) = Inr (l1, u1, obj1)" and
    rest: "check_attributes as (init_object_check env) (l1, u1, obj1) = Inr (l', u', obj')"
    by (cases "init_object_check env n x (l, u, obj)") (auto simp: a)
  show ?case
    using Cons.IH [OF rest] init_object_check_visible [OF step]
    by (simp add: a visible_attribute_def attribute_Cons split: option.splits)
qed

lemma init_object_in_delete_section:
  assumes "init_object env True object as = Inr (object', u)"
  shows "o_visible object' = (case visible_attribute env as of None \<Rightarrow> False | Some b \<Rightarrow> b)"
proof -
  from assms obtain l obj1 where
    scan: "check_attributes as (init_object_check env) (Location, [], set_visible False object) =
      Inr (l, u, obj1)" and
    obj: "object' = (if location_bool l \<and> o_type obj1 = item_type_node
      then set_location l obj1 else obj1)"
    by (auto simp: init_object_def split: sum.splits)
  have "o_visible object' = o_visible obj1"
    by (simp add: obj set_location_def)
  then show ?thesis
    using init_object_scan_visible [OF scan] by (simp add: set_visible_def split: option.splits)
qed

lemma reset_object_builder_frame [simp]:
  "m_in_delete_section (reset_node_builder env s) = m_in_delete_section s"
  "m_in_delete_section (reset_way_builder env s) = m_in_delete_section s"
  "m_in_delete_section (reset_relation_builder env s) = m_in_delete_section s"
  "read_types (reset_node_builder env s) = read_types s"
  "read_types (reset_way_builder env s) = read_types s"
  "read_types (reset_relation_builder env s) = read_types s"
  by (simp_all add: reset_node_builder_def reset_way_builder_def reset_relation_builder_def
      split: option.splits)

text \<open>
  C1 (amended). When a \<^verbatim>\<open>node\<close>, \<^verbatim>\<open>way\<close> or \<^verbatim>\<open>relation\<close> element of a kind
  that is read starts while the in-delete flag is set, the object under construction has
  \<open>visible = false\<close> if the element has no \<^verbatim>\<open>visible\<close> attribute; if it has one,
  the flag is what that attribute says. \<^verbatim>\<open>init_object\<close> sets the flag to false before
  it scans the attributes, and the scan hands \<^verbatim>\<open>visible\<close> to the attribute setter.
\<close>

theorem delete_section_visibility:
  assumes "m_context s = context_top" and "m_in_delete_section s"
    and "start_element env element as s = Inr s'"
  shows "(element = ''node'' \<and> item_type_node \<in> read_types s \<longrightarrow>
            (\<exists>b. m_node_builder s' = Some b \<and>
               o_visible (b_object b) =
                 (case visible_attribute env as of None \<Rightarrow> False | Some v \<Rightarrow> v))) \<and>
         (element = ''way'' \<and> item_type_way \<in> read_types s \<longrightarrow>
            (\<exists>b. m_way_builder s' = Some b \<and>
               o_visible (b_object b) =
                 (case visible_attribute env as of None \<Rightarrow> False | Some v \<Rightarrow> v))) \<and>
         (element = ''relation'' \<and> item_type_relation \<in> read_types s \<longrightarrow>
            (\<exists>b. m_relation_builder s' = Some b \<and>
               o_visible (b_object b) =
                 (case visible_attribute env as of None \<Rightarrow> False | Some v \<Rightarrow> v)))"
  using assms
  by (auto simp: start_element_def start_element_top_def Let_def add_user_def
      dest!: init_object_in_delete_section split: if_splits sum.splits prod.splits)

text \<open>The theorem for \<^verbatim>\<open><node id="9" version="3">\<close> at top level inside a delete section.\<close>

theorem delete_section_visibility_witness:
  "m_context ((XMLParser {item_type_node})\<lparr>m_context := context_top,
       m_in_delete_section := True\<rparr>) = context_top \<and>
   m_in_delete_section ((XMLParser {item_type_node})\<lparr>m_context := context_top,
       m_in_delete_section := True\<rparr>) \<and>
   ''node'' = ''node'' \<and>
   item_type_node \<in> read_types ((XMLParser {item_type_node})\<lparr>m_context := context_top,
       m_in_delete_section := True\<rparr>) \<and>
   visible_attribute sample_env [(''id'', ''9''), (''version'', ''3'')] = None \<and>
   (\<exists>s' b. start_element sample_env ''node'' [(''id'', ''9''), (''version'', ''3'')]
       ((XMLParser {item_type_node})\<lparr>m_context := context_top, m_in_delete_section := True\<rparr>) =
       Inr s' \<and> m_node_builder s' = Some b \<and> o_visible (b_object b) = False)"
  using delete_section_visibility [of
      "(XMLParser {item_type_node})\<lparr>m_context := context_top, m_in_delete_section := True\<rparr>"
      sample_env "''node''" "[(''id'', ''9''), (''version'', ''3'')]"]
  by (simp add: eval_defs visible_attribute_def attribute_def)

text \<open>
  A node with \<^verbatim>\<open>visible="true"\<close> inside \<^verbatim>\<open><delete>\<close> (\<open>delete_visible_true\<close>,
  nodes being read): the node in the output queue is visible.
\<close>

theorem delete_section_visible_true:
  "map o_visible (emitted_objects (run sample_env [delete_visible_true] (XMLParser {item_type_node})))
     = [True]"
  by (simp add: emitted_objects_def delete_visible_true_def eval_defs)

subsection \<open>One sublist builder at a time\<close>

lemma same_kind_refl [simp]: "same_kind x x"
  by (cases x) simp_all

lemma live_sublists_le:
  assumes "builders_ok s"
  shows "length (live_sublists s) \<le> 1"
proof -
  have free: "builders_free s \<Longrightarrow> ?thesis"
    by (simp add: builders_free_def)
  have ok: "entity_ok r s \<Longrightarrow> ?thesis" for r
    by (cases r)
      (auto simp: entity_ok_node entity_ok_way entity_ok_relation entity_ok_changeset
        live_sublists_def split: option.splits)
  show ?thesis
    using assms free ok
    by (cases "m_context s"; cases "m_last_context s")
      (auto simp: builders_ok_def entity_of_def)
qed

lemma switch_way:
  assumes "m_context s = context_way" "entity_ok way_builder s"
    "start_element env element as s = Inr s'"
    "live_sublists s = [x]" "live_sublists s' = [y]" "\<not> same_kind x y"
  shows "entity_subitems s' = entity_subitems s @ [x]"
proof -
  obtain b where b: "m_way_builder s = Some b" using assms(2) by (auto simp: entity_ok_way)
  show ?thesis
    using assms b
    apply (cases "m_tl_builder s"; cases "m_wnl_builder s")
    apply (auto simp: entity_ok_way parent_is_def start_element_def start_element_way_def
        get_tag_def Let_def reset_tl_builder_def reset_wnl_builder_def release_sublist_def
        live_sublists_def current_items_def entity_subitems_def item_subitems_def
        builder_get_def add_subitem_def
        split: sum.splits prod.splits if_splits)
    done
qed

lemma switch_relation:
  assumes "m_context s = context_relation" "entity_ok relation_builder s"
    "start_element env element as s = Inr s'"
    "live_sublists s = [x]" "live_sublists s' = [y]" "\<not> same_kind x y"
  shows "entity_subitems s' = entity_subitems s @ [x]"
proof -
  obtain b where b: "m_relation_builder s = Some b"
    using assms(2) by (auto simp: entity_ok_relation)
  show ?thesis
    using assms b
    apply (cases "m_tl_builder s"; cases "m_rml_builder s")
    apply (auto simp: entity_ok_relation parent_is_def start_element_def
        start_element_relation_def get_tag_def Let_def reset_tl_builder_def
        reset_rml_builder_def release_sublist_def live_sublists_def current_items_def
        entity_subitems_def item_subitems_def builder_get_def add_subitem_def
        split: sum.splits prod.splits if_splits)
    done
qed

lemma switch_changeset:
  assumes "m_context s = context_changeset" "entity_ok changeset_builder s"
    "start_element env element as s = Inr s'"
    "live_sublists s = [x]" "live_sublists s' = [y]" "\<not> same_kind x y"
  shows "entity_subitems s' = entity_subitems s @ [x]"
proof -
  obtain b where b: "m_changeset_builder s = Some b"
    using assms(2) by (auto simp: entity_ok_changeset)
  show ?thesis
    using assms b
    apply (cases "m_tl_builder s"; cases "m_changeset_discussion_builder s")
    apply (auto simp: entity_ok_changeset parent_is_def start_element_def
        start_element_changeset_def get_tag_def Let_def reset_tl_builder_def
        reset_changeset_discussion_builder_def release_sublist_def live_sublists_def
        current_items_def entity_subitems_def item_subitems_def builder_get_def add_subitem_def
        split: sum.splits prod.splits if_splits)
    done
qed

lemma switch_node:
  assumes "m_context s = context_node" "entity_ok node_builder s"
    "start_element env element as s = Inr s'"
    "live_sublists s = [x]" "live_sublists s' = [y]" "\<not> same_kind x y"
  shows "entity_subitems s' = entity_subitems s @ [x]"
  using assms
  apply (cases "m_tl_builder s")
  apply (auto simp: entity_ok_node parent_is_def start_element_def start_element_node_def
      get_tag_def Let_def live_sublists_def split: sum.splits prod.splits if_splits)
  done

lemma switch_discussion:
  assumes "m_context s = context_discussion" "entity_ok changeset_builder s"
    "start_element env element as s = Inr s'"
    "live_sublists s = [x]" "live_sublists s' = [y]" "\<not> same_kind x y"
  shows "entity_subitems s' = entity_subitems s @ [x]"
  using assms
  apply (cases "m_tl_builder s"; cases "m_changeset_discussion_builder s")
  apply (auto simp: entity_ok_changeset parent_is_def start_element_def
      start_element_discussion_def Let_def live_sublists_def
      split: sum.splits prod.splits if_splits)
  done

lemma sublist_switch:
  assumes "builders_ok s" "start_element env element as s = Inr s'"
    "live_sublists s = [x]" "live_sublists s' = [y]" "\<not> same_kind x y"
  shows "entity_subitems s' = entity_subitems s @ [x]"
proof (cases "m_context s")
  case context_root
  then show ?thesis using assms by (simp add: builders_ok_def entity_of_def builders_free_def)
next
  case context_top
  then show ?thesis using assms by (simp add: builders_ok_def entity_of_def builders_free_def)
next
  case context_node
  then show ?thesis using assms switch_node [of s env element as s' x y]
    by (simp add: builders_ok_def entity_of_def)
next
  case context_way
  then show ?thesis using assms switch_way [of s env element as s' x y]
    by (simp add: builders_ok_def entity_of_def)
next
  case context_relation
  then show ?thesis using assms switch_relation [of s env element as s' x y]
    by (simp add: builders_ok_def entity_of_def)
next
  case context_changeset
  then show ?thesis using assms switch_changeset [of s env element as s' x y]
    by (simp add: builders_ok_def entity_of_def)
next
  case context_discussion
  then show ?thesis using assms switch_discussion [of s env element as s' x y]
    by (simp add: builders_ok_def entity_of_def)
next
  case context_comment
  then show ?thesis using assms
    by (cases "element = ''text''") (auto simp: start_element_def live_sublists_def)
next
  case context_comment_text
  then show ?thesis using assms by (auto simp: start_element_def)
next
  case context_ignored_node
  then show ?thesis using assms by (simp add: builders_ok_def entity_of_def builders_free_def)
next
  case context_ignored_way
  then show ?thesis using assms by (simp add: builders_ok_def entity_of_def builders_free_def)
next
  case context_ignored_relation
  then show ?thesis using assms by (simp add: builders_ok_def entity_of_def builders_free_def)
next
  case context_ignored_changeset
  then show ?thesis using assms by (simp add: builders_ok_def entity_of_def builders_free_def)
next
  case context_in_object
  then show ?thesis using assms by (simp add: start_element_def)
qed

lemma close_entity_items:
  assumes "builders_ok s"
    and "m_context s \<in> {context_node, context_way, context_relation, context_changeset}"
  shows "\<exists>s1. end_element env (entity_element (m_context s)) s = Inr (flush_buffer s1) \<and>
     builders_free s1 \<and> length (current_items s) = 1 \<and>
     items (m_buffer s1) = items (m_buffer s) @ map (close_item (live_sublists s)) (current_items s)"
proof -
  have items: "items (m_buffer (closed_state i env s)) = items (m_buffer s) @ [i]" for i
    by (simp add: closed_state_def commit_def buffer_add_item_def)
  consider "m_context s = context_node" | "m_context s = context_way"
    | "m_context s = context_relation" | "m_context s = context_changeset"
    using assms(2) by auto
  then show ?thesis
  proof cases
    case 1
    then have ok: "entity_ok node_builder s"
      using assms(1) by (simp add: builders_ok_def entity_of_def)
    obtain b where b: "m_node_builder s = Some b" and
      e: "end_element env ''node'' s = Inr (flush_buffer (closed_state
        (object_item (b\<lparr>b_subitems := b_subitems b @ live_sublists s\<rparr>)) env s))"
      using end_node [OF 1 ok, of env] by blast
    have "current_items s = [object_item b]"
      using ok b by (simp add: entity_ok_node current_items_def)
    then show ?thesis
      using e 1 by (auto simp: entity_element_def items close_item_def)
  next
    case 2
    then have ok: "entity_ok way_builder s"
      using assms(1) by (simp add: builders_ok_def entity_of_def)
    obtain b where b: "m_way_builder s = Some b" and
      e: "end_element env ''way'' s = Inr (flush_buffer (closed_state
        (object_item (b\<lparr>b_subitems := b_subitems b @ live_sublists s\<rparr>)) env s))"
      using end_way [OF 2 ok, of env] by blast
    have "current_items s = [object_item b]"
      using ok b by (simp add: entity_ok_way current_items_def)
    then show ?thesis
      using e 2 by (auto simp: entity_element_def items close_item_def)
  next
    case 3
    then have ok: "entity_ok relation_builder s"
      using assms(1) by (simp add: builders_ok_def entity_of_def)
    obtain b where b: "m_relation_builder s = Some b" and
      e: "end_element env ''relation'' s = Inr (flush_buffer (closed_state
        (object_item (b\<lparr>b_subitems := b_subitems b @ live_sublists s\<rparr>)) env s))"
      using end_relation [OF 3 ok, of env] by blast
    have "current_items s = [object_item b]"
      using ok b by (simp add: entity_ok_relation current_items_def)
    then show ?thesis
      using e 3 by (auto simp: entity_element_def items close_item_def)
  next
    case 4
    then have ok: "entity_ok changeset_builder s"
      using assms(1) by (simp add: builders_ok_def entity_of_def)
    obtain b where b: "m_changeset_builder s = Some b" and
      e: "end_element env ''changeset'' s = Inr (flush_buffer (closed_state
        (changeset_item (b\<lparr>b_subitems := b_subitems b @ live_sublists s\<rparr>)) env s))"
      using end_changeset [OF 4 ok, of env] by blast
    have "current_items s = [changeset_item b]"
      using ok b by (simp add: entity_ok_changeset current_items_def)
    then show ?thesis
      using e 4 by (auto simp: entity_element_def items close_item_def)
  qed
qed

text \<open>
  C7. In every state \<open>s\<close> the parser reaches:
  \<^item> at most one sublist builder (tag list, way-node list, relation member list, changeset
    discussion) is live;
  \<^item> whenever a \<^verbatim>\<open>start_element\<close> leads from a state in which the sublist \<open>x\<close> is
    under construction to a state in which a sublist of another kind is under construction,
    \<open>x\<close> has been closed: it is the last of the sublists closed inside the entity, after
    those closed before;
  \<^item> inside a node, way, relation or changeset, the closing tag of the entity releases all
    builders, and the item it leaves in the buffer is the item of the object builder with
    the sublist still under construction (if any) closed inside it: the sublist builders are
    released before the object builder.
\<close>

theorem one_live_sublist_builder:
  assumes "expat_parse env evs (XMLParser rt) = Inr s"
  shows "length (live_sublists s) \<le> 1 \<and>
         (\<forall>element as s' x y.
            start_element env element as s = Inr s' \<and> live_sublists s = [x] \<and>
            live_sublists s' = [y] \<and> \<not> same_kind x y \<longrightarrow>
              entity_subitems s' = entity_subitems s @ [x]) \<and>
         (m_context s \<in> {context_node, context_way, context_relation, context_changeset} \<longrightarrow>
            (\<exists>s1. end_element env (entity_element (m_context s)) s = Inr (flush_buffer s1) \<and>
               builders_free s1 \<and> length (current_items s) = 1 \<and>
               items (m_buffer s1) =
                 items (m_buffer s) @ map (close_item (live_sublists s)) (current_items s)))"
  using live_sublists_le [OF ok_reachable [OF assms]]
    sublist_switch [OF ok_reachable [OF assms]]
    close_entity_items [OF ok_reachable [OF assms]]
  by blast

text \<open>
  The theorem at the state \<open>way_open\<close>, where the tag list \<^verbatim>\<open>h=yes\<close> is under
  construction: a following \<^verbatim>\<open><nd ref="1"/>\<close> closes the tag list inside the way and
  starts a way-node list, and \<^verbatim>\<open></way>\<close> leaves the way with its tag list in the buffer.
\<close>

theorem one_live_sublist_builder_witness:
  "expat_parse sample_env way_tag (XMLParser {item_type_way}) = Inr way_open \<and>
   live_sublists way_open = [TagList [(''h'', ''yes'')]] \<and>
   entity_subitems way_open = [] \<and>
   (\<exists>s'. start_element sample_env ''nd'' [(''ref'', ''1'')] way_open = Inr s' \<and>
      live_sublists s' = [WayNodeList [NodeRef\<lparr>nr_ref := 1\<rparr>]] \<and>
      entity_subitems s' = [TagList [(''h'', ''yes'')]]) \<and>
   m_context way_open \<in> {context_node, context_way, context_relation, context_changeset} \<and>
   (\<exists>s1. end_element sample_env ''way'' way_open = Inr (flush_buffer s1) \<and>
      builders_free s1 \<and>
      map item_subitems (items (m_buffer s1)) = [[TagList [(''h'', ''yes'')]]])"
proof -
  have reach: "expat_parse sample_env way_tag (XMLParser {item_type_way}) = Inr way_open"
    by (simp add: eval_defs way_tag_def way_open_def)
  note t = one_live_sublist_builder [OF reach]
  have live: "live_sublists way_open = [TagList [(''h'', ''yes'')]]"
    and sub: "entity_subitems way_open = []"
    and cur: "current_items way_open =
      [object_item ((OSMObjectBuilder item_type_way)\<lparr>b_object := (new_object item_type_way)\<lparr>o_id := 10\<rparr>\<rparr>)]"
    and ctx: "m_context way_open = context_way"
    by (simp_all add: way_open_def live_sublists_def entity_subitems_def current_items_def
        item_subitems_def XMLParser_def OSMObjectBuilder_def)
  obtain s' where s': "start_element sample_env ''nd'' [(''ref'', ''1'')] way_open = Inr s'"
    and live': "live_sublists s' = [WayNodeList [NodeRef\<lparr>nr_ref := 1\<rparr>]]"
    by (simp add: eval_defs way_open_def live_sublists_def)
  have "entity_subitems s' = entity_subitems way_open @ [TagList [(''h'', ''yes'')]]"
    using t s' live live' by simp
  then have switch: "entity_subitems s' = [TagList [(''h'', ''yes'')]]"
    by (simp add: sub)
  obtain s1 where "end_element sample_env ''way'' way_open = Inr (flush_buffer s1)"
    and "builders_free s1"
    and "items (m_buffer s1) =
      items (m_buffer way_open) @ map (close_item (live_sublists way_open)) (current_items way_open)"
    using t by (auto simp: ctx entity_element_def)
  moreover have "items (m_buffer way_open) = []"
    by (simp add: way_open_def XMLParser_def Buffer_def)
  ultimately have close: "\<exists>s1. end_element sample_env ''way'' way_open = Inr (flush_buffer s1) \<and>
      builders_free s1 \<and> map item_subitems (items (m_buffer s1)) = [[TagList [(''h'', ''yes'')]]]"
    by (auto simp: live cur close_item_def item_subitems_def OSMObjectBuilder_def)
  show ?thesis
    using reach live sub s' live' switch close by (simp add: ctx)
qed

subsection \<open>Relation members without a full member\<close>

lemma parser_plain_iff:
  "parser_plain s \<longleftrightarrow>
     list_all buffer_plain (output_queue s) \<and> buffer_plain (m_buffer s) \<and>
     builder_plain (m_node_builder s) \<and> builder_plain (m_way_builder s) \<and>
     builder_plain (m_relation_builder s) \<and> builder_plain (m_changeset_builder s) \<and>
     list_all member_plain (members_of (m_rml_builder s))"
  by (cases "m_node_builder s"; cases "m_way_builder s"; cases "m_relation_builder s";
      cases "m_changeset_builder s"; cases "m_tl_builder s"; cases "m_wnl_builder s";
      cases "m_rml_builder s"; cases "m_changeset_discussion_builder s";
      simp add: parser_plain_def current_items_def live_sublists_def builder_plain_def
        item_plain_def item_subitems_def subitem_plain_def members_of_def)

lemma builder_plain_add_subitem:
  "builder_plain bo \<Longrightarrow> subitem_plain sub \<Longrightarrow> builder_plain (map_option (add_subitem sub) bo)"
  by (cases bo) (simp_all add: builder_plain_def add_subitem_def)

lemma buffer_plain_add_item:
  "buffer_plain b \<Longrightarrow> item_plain i \<Longrightarrow> buffer_plain (buffer_add_item env i b)"
  by (simp add: buffer_plain_def buffer_add_item_def)

lemma plain_release_sublist:
  assumes "parser_plain s" "subitem_plain sub"
  shows "parser_plain (release_sublist env p sub s)"
proof (cases p)
  case None
  then show ?thesis using assms
    by (simp add: parser_plain_iff release_sublist_def buffer_plain_add_item item_plain_def
        item_subitems_def)
next
  case (Some r)
  then show ?thesis using assms
    by (cases r) (simp_all add: parser_plain_iff release_sublist_def builder_plain_add_subitem)
qed

lemma plain_reset_tl: "parser_plain s \<Longrightarrow> parser_plain (reset_tl_builder env s)"
proof (cases "m_tl_builder s")
  case None
  then show "parser_plain s \<Longrightarrow> ?thesis" by (simp add: reset_tl_builder_def)
next
  case (Some b)
  assume "parser_plain s"
  then have "parser_plain (s\<lparr>m_tl_builder := None\<rparr>)"
    by (simp add: parser_plain_iff)
  then show ?thesis
    using Some by (simp add: reset_tl_builder_def plain_release_sublist subitem_plain_def)
qed

lemma plain_reset_wnl: "parser_plain s \<Longrightarrow> parser_plain (reset_wnl_builder env s)"
proof (cases "m_wnl_builder s")
  case None
  then show "parser_plain s \<Longrightarrow> ?thesis" by (simp add: reset_wnl_builder_def)
next
  case (Some b)
  assume "parser_plain s"
  then have "parser_plain (s\<lparr>m_wnl_builder := None\<rparr>)"
    by (simp add: parser_plain_iff)
  then show ?thesis
    using Some by (simp add: reset_wnl_builder_def plain_release_sublist subitem_plain_def)
qed

lemma plain_reset_rml: "parser_plain s \<Longrightarrow> parser_plain (reset_rml_builder env s)"
proof (cases "m_rml_builder s")
  case None
  then show "parser_plain s \<Longrightarrow> ?thesis" by (simp add: reset_rml_builder_def)
next
  case (Some b)
  assume "parser_plain s"
  then have "parser_plain (s\<lparr>m_rml_builder := None\<rparr>)"
    and "subitem_plain (RelationMemberList (sb_list b))"
    using Some by (simp_all add: parser_plain_iff members_of_def subitem_plain_def)
  then show ?thesis
    using Some by (simp add: reset_rml_builder_def plain_release_sublist)
qed

lemma plain_reset_discussion:
  "parser_plain s \<Longrightarrow> parser_plain (reset_changeset_discussion_builder env s)"
proof (cases "m_changeset_discussion_builder s")
  case None
  then show "parser_plain s \<Longrightarrow> ?thesis" by (simp add: reset_changeset_discussion_builder_def)
next
  case (Some b)
  assume "parser_plain s"
  then have "parser_plain (s\<lparr>m_changeset_discussion_builder := None\<rparr>)"
    by (simp add: parser_plain_iff)
  then show ?thesis
    using Some
    by (simp add: reset_changeset_discussion_builder_def plain_release_sublist subitem_plain_def)
qed

lemma item_plain_builder:
  "item_plain (object_item b) = builder_plain (Some b)"
  "item_plain (changeset_item c) = builder_plain (Some c)"
  by (simp_all add: item_plain_def item_subitems_def builder_plain_def)

lemma plain_reset_node: "parser_plain s \<Longrightarrow> parser_plain (reset_node_builder env s)"
  by (cases "m_node_builder s")
    (simp_all add: reset_node_builder_def parser_plain_iff buffer_plain_add_item
      item_plain_builder, simp add: builder_plain_def)

lemma plain_reset_way: "parser_plain s \<Longrightarrow> parser_plain (reset_way_builder env s)"
  by (cases "m_way_builder s")
    (simp_all add: reset_way_builder_def parser_plain_iff buffer_plain_add_item
      item_plain_builder, simp add: builder_plain_def)

lemma plain_reset_relation: "parser_plain s \<Longrightarrow> parser_plain (reset_relation_builder env s)"
  by (cases "m_relation_builder s")
    (simp_all add: reset_relation_builder_def parser_plain_iff buffer_plain_add_item
      item_plain_builder, simp add: builder_plain_def)

lemma plain_reset_changeset: "parser_plain s \<Longrightarrow> parser_plain (reset_changeset_builder env s)"
  by (cases "m_changeset_builder s")
    (simp_all add: reset_changeset_builder_def parser_plain_iff buffer_plain_add_item
      item_plain_builder, simp add: builder_plain_def)

lemma plain_get_tag:
  assumes "parser_plain s" "get_tag p as s = Inr s'"
  shows "parser_plain s'"
  using assms
  by (auto simp: get_tag_def Let_def parser_plain_iff
      split: sum.splits prod.splits option.splits if_splits)

lemma plain_flush_buffer: "parser_plain s \<Longrightarrow> parser_plain (flush_buffer s)"
  by (simp add: flush_buffer_def parser_plain_iff send_to_output_queue_def Buffer_def
      buffer_plain_def)

lemma plain_mark_header_as_done: "parser_plain s \<Longrightarrow> parser_plain (mark_header_as_done s)"
  by (simp add: parser_plain_iff mark_header_as_done_def set_header_value_def)

lemma plain_commit: "parser_plain s \<Longrightarrow> parser_plain (s\<lparr>m_buffer := commit (m_buffer s)\<rparr>)"
  by (simp add: parser_plain_iff commit_def buffer_plain_def)

lemma plain_context [simp]:
  "parser_plain (s\<lparr>m_context := c\<rparr>) = parser_plain s"
  "parser_plain (s\<lparr>m_last_context := c\<rparr>) = parser_plain s"
  "parser_plain (s\<lparr>m_last_context := c, m_context := c'\<rparr>) = parser_plain s"
  "parser_plain (s\<lparr>m_in_delete_section := d\<rparr>) = parser_plain s"
  "parser_plain (s\<lparr>m_header := h\<rparr>) = parser_plain s"
  "parser_plain (s\<lparr>m_header := h, m_context := c\<rparr>) = parser_plain s"
  "parser_plain (s\<lparr>m_comment_text := t\<rparr>) = parser_plain s"
  "parser_plain (s\<lparr>m_tl_builder := tlb\<rparr>) = parser_plain s"
  "parser_plain (s\<lparr>m_wnl_builder := wnl\<rparr>) = parser_plain s"
  "parser_plain (s\<lparr>m_changeset_discussion_builder := d'\<rparr>) = parser_plain s"
  by (simp_all add: parser_plain_iff)

lemma plain_start_relation:
  assumes "parser_plain s" "start_element_relation env element as s = Inr s'"
  shows "parser_plain s'"
proof -
  let ?s1 = "s\<lparr>m_last_context := context_relation, m_context := context_in_object\<rparr>"
  have p1: "parser_plain ?s1" using assms(1) by simp
  show ?thesis
  proof (cases "element = ''member''")
    case True
    let ?s2 = "reset_tl_builder env ?s1"
    have p2: "parser_plain ?s2" using p1 by (rule plain_reset_tl)
    show ?thesis
      using assms(2) True p2
      by (auto simp: start_element_relation_def Let_def parser_plain_iff members_of_def
          add_member_plain member_plain_def
          split: sum.splits prod.splits option.splits if_splits)
  next
    case False
    show ?thesis
    proof (cases "element = ''tag''")
      case True
      let ?s2 = "reset_rml_builder env ?s1"
      have p2: "parser_plain ?s2" using p1 by (rule plain_reset_rml)
      show ?thesis
        using assms(2) True False plain_get_tag [OF p2]
        by (simp add: start_element_relation_def Let_def)
    next
      case False
      then show ?thesis
        using assms \<open>element \<noteq> ''member''\<close> by (auto simp: start_element_relation_def Let_def)
    qed
  qed
qed

lemma plain_start_way:
  assumes "parser_plain s" "start_element_way env element as s = Inr s'"
  shows "parser_plain s'"
proof -
  let ?s1 = "s\<lparr>m_last_context := context_way, m_context := context_in_object\<rparr>"
  have p1: "parser_plain ?s1" using assms(1) by simp
  show ?thesis
  proof (cases "element = ''nd''")
    case True
    let ?s2 = "reset_tl_builder env ?s1"
    have p2: "parser_plain ?s2" using p1 by (rule plain_reset_tl)
    show ?thesis
      using assms(2) True p2
      by (auto simp: start_element_way_def Let_def parser_plain_iff
          split: sum.splits prod.splits option.splits if_splits)
  next
    case False
    show ?thesis
    proof (cases "element = ''tag''")
      case True
      let ?s2 = "reset_wnl_builder env ?s1"
      have p2: "parser_plain ?s2" using p1 by (rule plain_reset_wnl)
      show ?thesis
        using assms(2) True False plain_get_tag [OF p2]
        by (simp add: start_element_way_def Let_def)
    next
      case False
      then show ?thesis
        using assms \<open>element \<noteq> ''nd''\<close> by (auto simp: start_element_way_def Let_def)
    qed
  qed
qed

lemma plain_start_node:
  assumes "parser_plain s" "start_element_node element as s = Inr s'"
  shows "parser_plain s'"
proof -
  let ?s1 = "s\<lparr>m_last_context := context_node, m_context := context_in_object\<rparr>"
  have p1: "parser_plain ?s1" using assms(1) by simp
  show ?thesis
    using assms(2) p1 plain_get_tag [OF p1]
    by (cases "element = ''tag''") (auto simp: start_element_node_def Let_def)
qed

lemma plain_start_changeset:
  assumes "parser_plain s" "start_element_changeset env element as s = Inr s'"
  shows "parser_plain s'"
proof -
  let ?s1 = "s\<lparr>m_last_context := context_changeset\<rparr>"
  have p1: "parser_plain ?s1" using assms(1) by simp
  show ?thesis
  proof (cases "element = ''discussion''")
    case True
    let ?s2 = "reset_tl_builder env (?s1\<lparr>m_context := context_discussion\<rparr>)"
    have p2: "parser_plain ?s2" using p1 by (simp add: plain_reset_tl)
    show ?thesis
      using assms(2) True p2
      by (auto simp: start_element_changeset_def Let_def split: if_splits)
  next
    case False
    show ?thesis
    proof (cases "element = ''tag''")
      case True
      let ?s2 = "reset_changeset_discussion_builder env (?s1\<lparr>m_context := context_in_object\<rparr>)"
      have p2: "parser_plain ?s2" using p1 by (simp add: plain_reset_discussion)
      show ?thesis
        using assms(2) True False plain_get_tag [OF p2]
        by (simp add: start_element_changeset_def Let_def)
    next
      case False
      then show ?thesis
        using assms \<open>element \<noteq> ''discussion''\<close>
        by (auto simp: start_element_changeset_def Let_def)
    qed
  qed
qed

lemma plain_start_discussion:
  assumes "parser_plain s" "start_element_discussion env element as s = Inr s'"
  shows "parser_plain s'"
  using assms
  by (auto simp: start_element_discussion_def Let_def
      split: sum.splits prod.splits option.splits if_splits)

lemma plain_start_root:
  assumes "parser_plain s" "start_element_root element as s = Inr s'"
  shows "parser_plain s'"
  using assms
  by (auto simp: start_element_root_def Let_def split: sum.splits if_splits)

lemma init_changeset_subitems:
  "init_changeset env b as = Inr b' \<Longrightarrow> b_subitems b' = b_subitems b"
  by (auto simp: init_changeset_def add_user_def Let_def split: sum.splits prod.splits)

lemma plain_new_builder:
  "parser_plain s \<Longrightarrow>
   parser_plain (s\<lparr>m_node_builder := Some (add_user u ((OSMObjectBuilder t)\<lparr>b_object := obj\<rparr>)),
     m_context := c\<rparr>)"
  "parser_plain s \<Longrightarrow>
   parser_plain (s\<lparr>m_way_builder := Some (add_user u ((OSMObjectBuilder t)\<lparr>b_object := obj\<rparr>)),
     m_context := c\<rparr>)"
  "parser_plain s \<Longrightarrow>
   parser_plain (s\<lparr>m_relation_builder := Some (add_user u ((OSMObjectBuilder t)\<lparr>b_object := obj\<rparr>)),
     m_context := c\<rparr>)"
  "parser_plain s \<Longrightarrow> b_subitems b = [] \<Longrightarrow>
   parser_plain (s\<lparr>m_changeset_builder := Some b, m_context := c\<rparr>)"
  by (simp_all add: parser_plain_iff builder_plain_def add_user_def OSMObjectBuilder_def)

lemma plain_top_node:
  assumes "parser_plain s" "start_element_top env ''node'' as s = Inr s'"
  shows "parser_plain s'"
proof -
  have m: "parser_plain (mark_header_as_done s)"
    using assms(1) by (rule plain_mark_header_as_done)
  have tl: "m_tl_builder s = None"
    using assms(2) by (simp add: start_element_top_def split: if_splits)
  show ?thesis
    using assms(2) plain_new_builder(1) [OF plain_reset_node [OF m, of env]] m
    by (auto simp: start_element_top_def tl Let_def split: sum.splits prod.splits if_splits)
qed

lemma plain_top_way:
  assumes "parser_plain s" "start_element_top env ''way'' as s = Inr s'"
  shows "parser_plain s'"
proof -
  have m: "parser_plain (mark_header_as_done s)"
    using assms(1) by (rule plain_mark_header_as_done)
  have tl: "m_tl_builder s = None"
    using assms(2) by (simp add: start_element_top_def split: if_splits)
  show ?thesis
    using assms(2) plain_new_builder(2) [OF plain_reset_way [OF m, of env]] m
    by (auto simp: start_element_top_def tl Let_def split: sum.splits prod.splits if_splits)
qed

lemma plain_top_relation:
  assumes "parser_plain s" "start_element_top env ''relation'' as s = Inr s'"
  shows "parser_plain s'"
proof -
  have m: "parser_plain (mark_header_as_done s)"
    using assms(1) by (rule plain_mark_header_as_done)
  have tl: "m_tl_builder s = None"
    using assms(2) by (simp add: start_element_top_def split: if_splits)
  show ?thesis
    using assms(2) plain_new_builder(3) [OF plain_reset_relation [OF m, of env]] m
    by (auto simp: start_element_top_def tl Let_def split: sum.splits prod.splits if_splits)
qed

lemma plain_top_changeset:
  assumes "parser_plain s" "start_element_top env ''changeset'' as s = Inr s'"
  shows "parser_plain s'"
proof -
  have m: "parser_plain (mark_header_as_done s)"
    using assms(1) by (rule plain_mark_header_as_done)
  have tl: "m_tl_builder s = None"
    using assms(2) by (simp add: start_element_top_def split: if_splits)
  have cs: "b_subitems b = []" if "init_changeset env ChangesetBuilder as = Inr b" for b
    using init_changeset_subitems [OF that] by (simp add: ChangesetBuilder_def)
  show ?thesis
    using assms(2) plain_new_builder(4) [OF plain_reset_changeset [OF m, of env]] m cs
    by (auto simp: start_element_top_def tl Let_def split: sum.splits prod.splits if_splits)
qed

lemma plain_top_other:
  assumes "parser_plain s" "start_element_top env element as s = Inr s'"
    "element \<noteq> ''node''" "element \<noteq> ''way''" "element \<noteq> ''relation''"
    "element \<noteq> ''changeset''"
  shows "parser_plain s'"
proof -
  have tl: "m_tl_builder s = None"
    using assms(2) by (simp add: start_element_top_def split: if_splits)
  show ?thesis
    using assms by (auto simp: start_element_top_def tl Let_def parser_plain_iff
        split: sum.splits prod.splits if_splits)
qed

lemma plain_start_top:
  assumes "parser_plain s" "start_element_top env element as s = Inr s'"
  shows "parser_plain s'"
proof (cases "element = ''node''")
  case True
  then show ?thesis using assms plain_top_node by simp
next
  case n: False
  show ?thesis
  proof (cases "element = ''way''")
    case True
    then show ?thesis using assms plain_top_way by simp
  next
    case w: False
    show ?thesis
    proof (cases "element = ''relation''")
      case True
      then show ?thesis using assms plain_top_relation by simp
    next
      case r: False
      show ?thesis
      proof (cases "element = ''changeset''")
        case True
        then show ?thesis using assms plain_top_changeset by simp
      next
        case False
        then show ?thesis using assms n w r by (rule_tac plain_top_other)
      qed
    qed
  qed
qed

lemma plain_start_element:
  assumes "parser_plain s" "start_element env element as s = Inr s'"
  shows "parser_plain s'"
proof (cases "m_context s")
  case context_root
  then show ?thesis using assms(2) plain_start_root [OF assms(1)]
    by (simp add: start_element_def)
next
  case context_top
  then show ?thesis using assms(2) plain_start_top [OF assms(1)]
    by (simp add: start_element_def)
next
  case context_node
  then show ?thesis using assms(2) plain_start_node [OF assms(1)]
    by (simp add: start_element_def)
next
  case context_way
  then show ?thesis using assms(2) plain_start_way [OF assms(1)]
    by (simp add: start_element_def)
next
  case context_relation
  then show ?thesis using assms(2) plain_start_relation [OF assms(1)]
    by (simp add: start_element_def)
next
  case context_changeset
  then show ?thesis using assms(2) plain_start_changeset [OF assms(1)]
    by (simp add: start_element_def)
next
  case context_discussion
  then show ?thesis using assms(2) plain_start_discussion [OF assms(1)]
    by (simp add: start_element_def)
qed (use assms in \<open>auto simp: start_element_def split: if_splits\<close>)

lemma plain_end_element:
  assumes "parser_plain s" "end_element env element s = Inr s'"
  shows "parser_plain s'"
proof (cases "m_context s")
  case context_top
  then show ?thesis using assms plain_mark_header_as_done [of s]
    by (auto simp: end_element_def split: if_splits)
next
  case context_node
  have "parser_plain (reset_node_builder env (reset_tl_builder env s))"
    using assms(1) by (intro plain_reset_node plain_reset_tl)
  then have "parser_plain (flush_buffer ((reset_node_builder env (reset_tl_builder env s))
      \<lparr>m_buffer := commit (m_buffer (reset_node_builder env (reset_tl_builder env s))),
        m_context := context_top\<rparr>))"
    by (intro plain_flush_buffer) (simp add: plain_commit)
  then show ?thesis using assms(2) context_node
    by (auto simp: end_element_def Let_def split: if_splits)
next
  case context_way
  have "parser_plain (reset_way_builder env (reset_wnl_builder env (reset_tl_builder env s)))"
    (is "parser_plain ?r")
    using assms(1) by (intro plain_reset_way plain_reset_wnl plain_reset_tl)
  then have "parser_plain (flush_buffer (?r\<lparr>m_buffer := commit (m_buffer ?r),
        m_context := context_top\<rparr>))"
    by (intro plain_flush_buffer) (simp add: plain_commit)
  then show ?thesis using assms(2) context_way
    by (auto simp: end_element_def Let_def split: if_splits)
next
  case context_relation
  have "parser_plain (reset_relation_builder env (reset_rml_builder env (reset_tl_builder env s)))"
    (is "parser_plain ?r")
    using assms(1) by (intro plain_reset_relation plain_reset_rml plain_reset_tl)
  then have "parser_plain (flush_buffer (?r\<lparr>m_buffer := commit (m_buffer ?r),
        m_context := context_top\<rparr>))"
    by (intro plain_flush_buffer) (simp add: plain_commit)
  then show ?thesis using assms(2) context_relation
    by (auto simp: end_element_def Let_def split: if_splits)
next
  case context_changeset
  have "parser_plain (reset_changeset_builder env
      (reset_changeset_discussion_builder env (reset_tl_builder env s)))"
    (is "parser_plain ?r")
    using assms(1) by (intro plain_reset_changeset plain_reset_discussion plain_reset_tl)
  then have "parser_plain (flush_buffer (?r\<lparr>m_buffer := commit (m_buffer ?r),
        m_context := context_top\<rparr>))"
    by (intro plain_flush_buffer) (simp add: plain_commit)
  then show ?thesis using assms(2) context_changeset
    by (auto simp: end_element_def Let_def split: if_splits)
qed (use assms in \<open>auto simp: end_element_def Let_def split: if_splits option.splits\<close>)

lemma plain_callback:
  assumes "parser_plain s" "callback env ev s = Inr s'"
  shows "parser_plain s'"
proof (cases ev)
  case (StartElement element atts)
  then show ?thesis using assms plain_start_element by (simp add: callback_def)
next
  case (EndElement element)
  then show ?thesis using assms plain_end_element by (simp add: callback_def)
next
  case (CharacterData chars)
  then show ?thesis using assms by (auto simp: callback_def characters_def)
next
  case EntityDecl
  then show ?thesis using assms by (simp add: callback_def)
next
  case (XML_STATUS_ERROR msg)
  then show ?thesis using assms by (simp add: callback_def)
qed

lemma plain_expat_parse: "parser_plain s \<Longrightarrow> result_plain (expat_parse env evs s)"
proof (induction evs arbitrary: s)
  case Nil
  then show ?case by (simp add: result_plain_def)
next
  case (Cons ev evs)
  show ?case
  proof (cases "callback env ev s")
    case (Inl e)
    then show ?thesis using Cons.prems by (simp add: result_plain_def parser_plain_iff)
  next
    case (Inr s')
    then show ?thesis using Cons.IH [OF plain_callback [OF Cons.prems Inr]] by simp
  qed
qed

lemma plain_run_loop: "parser_plain s \<Longrightarrow> result_plain (run_loop env input s)"
proof (induction input arbitrary: s)
  case Nil
  then show ?case by (simp add: result_plain_def)
next
  case (Cons chunk input)
  show ?case
  proof (cases "expat_parse env chunk s")
    case (Inl e)
    then show ?thesis using plain_expat_parse [OF Cons.prems, of env chunk]
      by (simp add: result_plain_def)
  next
    case (Inr s')
    then have "parser_plain s'"
      using plain_expat_parse [OF Cons.prems, of env chunk] by (simp add: result_plain_def)
    then show ?thesis using Inr Cons.IH [of s'] by (simp add: result_plain_def)
  qed
qed

lemma plain_run: "parser_plain s \<Longrightarrow> list_all buffer_plain (produced (run env input s))"
proof -
  assume "parser_plain s"
  then have r: "result_plain (run_loop env input s)" by (rule plain_run_loop)
  show ?thesis
  proof (cases "run_loop env input s")
    case (Inl e)
    then show ?thesis using r by (cases e) (simp add: run_def produced_def result_plain_def)
  next
    case (Inr s1)
    then have "parser_plain (mark_header_as_done s1)"
      using r by (simp add: result_plain_def plain_mark_header_as_done)
    then show ?thesis using Inr
      by (simp add: run_def produced_def Let_def parser_plain_iff send_to_output_queue_def)
  qed
qed

lemma plain_XMLParser: "parser_plain (XMLParser rt)"
  by (simp add: parser_plain_iff XMLParser_def Buffer_def buffer_plain_def builder_plain_def
      members_of_def)

lemma subitem_plain_members:
  "subitem_plain sub \<longleftrightarrow> (\<forall>m\<in>set (subitem_members sub). member_plain m)"
  by (cases sub) (simp_all add: subitem_plain_def subitem_members_def list_all_iff)

lemma plain_produced_members:
  assumes "list_all buffer_plain (produced r)" "m \<in> set (produced_members r)"
  shows "member_plain m"
proof -
  obtain b i sub where "b \<in> set (produced r)" "i \<in> set (items b)"
    "sub \<in> set (item_subitems i)" "m \<in> set (subitem_members sub)"
    using assms(2) by (auto simp: produced_members_def)
  then show ?thesis
    using assms(1) by (auto simp: list_all_iff buffer_plain_def item_plain_def subitem_plain_members)
qed

lemma plain_pending_members:
  assumes "parser_plain s" "m \<in> set (pending_members (expat_parse env evs s))"
  shows "member_plain m"
proof (cases "expat_parse env evs s")
  case (Inl e)
  then show ?thesis using assms(2) by (simp add: pending_members_def)
next
  case (Inr s')
  then have "parser_plain s'"
    using plain_expat_parse [OF assms(1), of env evs] by (simp add: result_plain_def)
  then show ?thesis
    using assms(2) Inr by (simp add: pending_members_def parser_plain_iff list_all_iff)
qed

text \<open>
  C9. Every relation member the parser produces has the flag \<^verbatim>\<open>has_full_member\<close> false and
  no item embedded after its record: the members of the relation member list under
  construction in any state the parser reaches from its initial state, and the members in
  the buffers that a run leaves in the output queue, whether the run ends normally or with
  an exception. The parser calls \<^verbatim>\<open>add_member\<close> with no full member only.
\<close>

theorem members_without_full_member:
  "(\<forall>m\<in>set (pending_members (expat_parse env evs (XMLParser rt))).
      \<not> rm_full_member m \<and> rm_item m = None) \<and>
   (\<forall>m\<in>set (produced_members (run env input (XMLParser rt))).
      \<not> rm_full_member m \<and> rm_item m = None)"
  using plain_pending_members [OF plain_XMLParser]
    plain_produced_members [OF plain_run [OF plain_XMLParser]]
  by (auto simp: member_plain_def)

text \<open>
  The theorem for a relation with one member: the member is under construction after the
  first three callbacks, and it is in the output queue after the run.
\<close>

theorem members_without_full_member_witness:
  "pending_members (expat_parse sample_env (take 3 relation_with_member)
       (XMLParser {item_type_relation})) =
     [\<lparr>rm_ref = 2, rm_type = item_type_way, rm_full_member = False,
       rm_role_size = length ''outer'' + 1, rm_role = ''outer'', rm_item = None\<rparr>] \<and>
   produced_members (run sample_env [relation_with_member] (XMLParser {item_type_relation})) =
     [\<lparr>rm_ref = 2, rm_type = item_type_way, rm_full_member = False,
       rm_role_size = length ''outer'' + 1, rm_role = ''outer'', rm_item = None\<rparr>] \<and>
   list_all (\<lambda>m. \<not> rm_full_member m \<and> rm_item m = None)
     (pending_members (expat_parse sample_env (take 3 relation_with_member)
        (XMLParser {item_type_relation}))) \<and>
   list_all (\<lambda>m. \<not> rm_full_member m \<and> rm_item m = None)
     (produced_members (run sample_env [relation_with_member] (XMLParser {item_type_relation})))"
  using members_without_full_member [of sample_env "take 3 relation_with_member"
      "{item_type_relation}" "[relation_with_member]"]
  by (simp add: pending_members_def members_of_def produced_members_def produced_def
      relation_with_member_def subitem_members_def item_subitems_def eval_defs)

end
